theory Spec2Isabelle
  imports Complex_Main "HOL-Library.Log_Nat" "HOL-Library.Sublist"
begin

section \<open>The wrapper class of \<^verbatim>\<open>PlaywrightWrappers.ts\<close>\<close>

text \<open>
  The class \<^verbatim>\<open>PlaywrightWrapper\<close> forwards to a Playwright \<^verbatim>\<open>Page\<close> and adds a few
  utilities on strings, numbers and dates. Each method is a function here that keeps its
  name. What the method obtains from outside the class is passed in: the values that
  \<^verbatim>\<open>Math.random()\<close> returns, the greatest length of a string, the clock, the locale data
  of \<^verbatim>\<open>Intl\<close>, the date parser, and the page handle. What ECMAScript fixes
  (\<^verbatim>\<open>parseFloat\<close>, \<^verbatim>\<open>charAt\<close>, \<^verbatim>\<open>Math.floor\<close>, the addition, the multiplication and the
  comparison of doubles, \<^verbatim>\<open>===\<close>, \<^verbatim>\<open>String.prototype.replace\<close> with the regular expression
  of the source) is defined. A thrown exception or a rejected promise is the left summand
  of the result; a call that does not return has no result, \<open>None\<close>.

  A \<^typ>\<open>string\<close> holds the bytes of the UTF-8 encoding of a JavaScript string; on the
  ASCII strings of the source its length is the JavaScript length.
\<close>

subsection \<open>Errors\<close>

datatype error =
  Error string        \<comment> \<open>\<^verbatim>\<open>new Error(message)\<close>\<close>
| RangeError          \<comment> \<open>thrown on an invalid date, and by \<^verbatim>\<open>+=\<close> on a string that would be too long\<close>
| InteractionError    \<comment> \<open>a failure of the page handle\<close>

subsection \<open>Numbers\<close>

text \<open>
  A finite non-negative double is the rational number it denotes. \<open>round_double q\<close> is the
  double nearest to the non-negative rational \<open>q\<close>, ties to the even significand, with 53
  bits of precision above \<open>2 powi (- 1022)\<close> and a spacing of \<open>2 powi (- 1074)\<close> below
  (the subnormal range); the exponent is not bounded above, overflow is decided by the
  caller. \<open>ilog2 q\<close> is the exponent \<open>e\<close> with \<open>2 powi e \<le> q < 2 powi (e + 1)\<close>.
\<close>

definition ilog2 :: "rat \<Rightarrow> int" where
  "ilog2 q = (let (a, b) = quotient_of q; k = bitlen a - bitlen b
              in if q < 2 powi k then k - 1 else k)"

definition roundTiesToEven :: "rat \<Rightarrow> int" where
  "roundTiesToEven x = (let f = \<lfloor>x\<rfloor>; d = x - of_int f
     in if d < 1/2 then f else if 1/2 < d then f + 1 else if even f then f else f + 1)"

definition ulp :: "rat \<Rightarrow> rat" where
  "ulp q = 2 powi (max (ilog2 q) (- 1022) - 52)"

definition round_double :: "rat \<Rightarrow> rat" where
  "round_double q = (if q = 0 then 0 else of_int (roundTiesToEven (q / ulp q)) * ulp q)"

text \<open>
  A Number value: \<open>Finite s m\<close> has magnitude \<open>m\<close> and is negative when \<open>s\<close> holds
  (\<open>Finite True 0\<close> is the negative zero), \<open>Infinity s\<close> likewise.
\<close>

datatype number = NaN | Infinity bool | Finite bool rat

definition isNaN :: "number \<Rightarrow> bool" where
  "isNaN x = (x = NaN)"

subsection \<open>\<^verbatim>\<open>generateRandomValue\<close>\<close>

text \<open>
  \<^verbatim>\<open>Math.random()\<close> returns a double that is at least 0 and less than 1; which one is up to
  the engine. \<open>rnd k\<close> is what call number \<open>k\<close> returns, counted from the entry of
  \<^verbatim>\<open>generateRandomValue\<close>, which calls it once in every round of its loop.
\<close>

definition unit_double :: "rat \<Rightarrow> bool" where
  "unit_double r = (0 \<le> r \<and> r < 1 \<and> round_double r = r)"

text \<open>\<^verbatim>\<open>s.charAt(i)\<close>: the character at index \<open>i\<close>, the empty string out of range.\<close>

definition charAt :: "string \<Rightarrow> int \<Rightarrow> string" where
  "charAt s i = (if 0 \<le> i \<and> i < int (length s) then [s ! nat i] else [])"

text \<open>
  The inner function of the source, applied to the value \<open>r\<close> of \<^verbatim>\<open>Math.random()\<close>:
  \<^verbatim>\<open>Math.floor(Math.random() * characters.length)\<close>, then \<^verbatim>\<open>charAt\<close>. The product of
  the two doubles is rounded to a double.
\<close>

definition getRandomChar :: "string \<Rightarrow> rat \<Rightarrow> string" where
  "getRandomChar characters r =
     (let randomIndex = \<lfloor>round_double (r * of_nat (length characters))\<rfloor>
      in charAt characters randomIndex)"

text \<open>
  The loop \<^verbatim>\<open>for (let i = 0; i < length; i++) randomValue += getRandomChar(characters)\<close>,
  entered at the counter \<open>i\<close> with the string built so far; \<open>k\<close> counts the calls of
  \<^verbatim>\<open>Math.random()\<close>.

  \<^verbatim>\<open>length\<close> is any Number. The counter is a double: it starts at 0, and \<^verbatim>\<open>i++\<close> adds 1
  and rounds, so that from \<open>2 ^ 53\<close> on it stays where it is. \<open>less_number i x\<close> is the
  comparison \<^verbatim>\<open>i < x\<close> for a finite \<open>i\<close> that is not negative: false when \<open>x\<close> is \<open>NaN\<close>.

  A string has at most \<open>max_length\<close> characters: ECMAScript allows \<open>2 ^ 53 - 1\<close>, the
  engines less (V8 \<open>2 ^ 29 - 24\<close>), and \<^verbatim>\<open>+=\<close> throws a \<^verbatim>\<open>RangeError\<close> when its result would be
  longer. A loop that does not end has the value \<open>None\<close>.
\<close>

definition less_number :: "rat \<Rightarrow> number \<Rightarrow> bool" where
  "less_number i x = (case x of NaN \<Rightarrow> False | Infinity s \<Rightarrow> \<not> s | Finite s m \<Rightarrow> \<not> s \<and> i < m)"

partial_function (option) random_loop ::
  "int \<Rightarrow> (nat \<Rightarrow> rat) \<Rightarrow> string \<Rightarrow> number \<Rightarrow> rat \<Rightarrow> nat \<Rightarrow> string \<Rightarrow> (error + string) option"
where
  "random_loop max_length rnd characters len i k randomValue =
     (if less_number i len
      then (if max_length < int (length (randomValue @ getRandomChar characters (rnd k)))
            then Some (Inl RangeError)
            else random_loop max_length rnd characters len (round_double (i + 1)) (Suc k)
                   (randomValue @ getRandomChar characters (rnd k)))
      else Some (Inr randomValue))"

declare random_loop.simps [code]

definition generateRandomValue ::
  "int \<Rightarrow> (nat \<Rightarrow> rat) \<Rightarrow> number \<Rightarrow> string \<Rightarrow> (error + string) option" where
  "generateRandomValue max_length rnd len type =
     (let characters =
            (if type = ''numeric'' then ''0123456789''
             else if type = ''alphanumeric''
               then ''ABCDEFGHIJKLMNOPQRSTUVWXYZabcdefghijklmnopqrstuvwxyz0123456789''
             else if type = ''characters'' then ''!@#$%^&*()_-+=<>?''
             else '''')
      in random_loop max_length rnd characters len 0 0 '''')"

text \<open>A \<^verbatim>\<open>Math.random()\<close> that returns \<open>r\<close> in every call.\<close>

definition always :: "rat \<Rightarrow> nat \<Rightarrow> rat" where
  "always r k = r"

subsection \<open>\<^verbatim>\<open>parseFloat\<close>\<close>

text \<open>
  \<^verbatim>\<open>parseFloat\<close> of ECMAScript: leading white space and line terminators are dropped, then
  the longest prefix that is a \<^verbatim>\<open>StrDecimalLiteral\<close> is read; when there is none the result
  is \<open>NaN\<close>. The white space is the code points U+0009, U+000A, U+000B, U+000C, U+000D,
  U+0020, U+00A0, U+1680, U+2000 to U+200A, U+2028, U+2029, U+202F, U+205F, U+3000 and
  U+FEFF, here in UTF-8 by the number of their bytes. \<open>white_space_length s\<close> is the number
  of bytes of the white space character that \<open>s\<close> starts with, 0 when it starts with none.
\<close>

definition white_space_1 :: "string list" where
  "white_space_1 = [[CHR 0x09], [CHR 0x0A], [CHR 0x0B], [CHR 0x0C], [CHR 0x0D], [CHR 0x20]]"

definition white_space_2 :: "string list" where
  "white_space_2 = [[CHR 0xC2, CHR 0xA0]]"

definition white_space_3 :: "string list" where
  "white_space_3 =
     [[CHR 0xE1, CHR 0x9A, CHR 0x80],
      [CHR 0xE2, CHR 0x80, CHR 0x80], [CHR 0xE2, CHR 0x80, CHR 0x81],
      [CHR 0xE2, CHR 0x80, CHR 0x82], [CHR 0xE2, CHR 0x80, CHR 0x83],
      [CHR 0xE2, CHR 0x80, CHR 0x84], [CHR 0xE2, CHR 0x80, CHR 0x85],
      [CHR 0xE2, CHR 0x80, CHR 0x86], [CHR 0xE2, CHR 0x80, CHR 0x87],
      [CHR 0xE2, CHR 0x80, CHR 0x88], [CHR 0xE2, CHR 0x80, CHR 0x89],
      [CHR 0xE2, CHR 0x80, CHR 0x8A],
      [CHR 0xE2, CHR 0x80, CHR 0xA8], [CHR 0xE2, CHR 0x80, CHR 0xA9],
      [CHR 0xE2, CHR 0x80, CHR 0xAF], [CHR 0xE2, CHR 0x81, CHR 0x9F],
      [CHR 0xE3, CHR 0x80, CHR 0x80], [CHR 0xEF, CHR 0xBB, CHR 0xBF]]"

definition white_space_length :: "string \<Rightarrow> nat" where
  "white_space_length s =
     (if take 1 s \<in> set white_space_1 then 1
      else if take 2 s \<in> set white_space_2 then 2
      else if take 3 s \<in> set white_space_3 then 3
      else 0)"

function trim_start :: "string \<Rightarrow> string" where
  "trim_start s =
     (if white_space_length s = 0 then s else trim_start (drop (white_space_length s) s))"
  by pat_completeness auto
termination
proof (relation "measure length")
  fix s :: string
  assume a: "white_space_length s \<noteq> 0"
  have "white_space_length [] = 0"
    by (simp add: white_space_length_def white_space_1_def white_space_2_def white_space_3_def)
  hence "s \<noteq> []" using a by auto
  thus "(drop (white_space_length s) s, s) \<in> measure length" using a by simp
qed simp

declare trim_start.simps [simp del]

definition is_digit :: "char \<Rightarrow> bool" where
  "is_digit c = (c \<in> set ''0123456789'')"

definition digit_value :: "char \<Rightarrow> int" where
  "digit_value c = int (length (takeWhile (\<lambda>d. d \<noteq> c) ''0123456789''))"

definition decimal_value :: "string \<Rightarrow> int" where
  "decimal_value ds = foldl (\<lambda>n c. 10 * n + digit_value c) 0 ds"

text \<open>
  The value of the \<^verbatim>\<open>ExponentPart\<close> that \<open>s\<close> starts with: \<^verbatim>\<open>e\<close> or \<^verbatim>\<open>E\<close>, an optional sign,
  at least one digit; 0 when \<open>s\<close> starts with no exponent part.
\<close>

definition exponent_part :: "string \<Rightarrow> int" where
  "exponent_part s =
     (case s of
        [] \<Rightarrow> 0
      | c # r \<Rightarrow>
          if c = CHR ''e'' \<or> c = CHR ''E'' then
            (let (neg, ds) =
                   (case r of
                      [] \<Rightarrow> (False, r)
                    | d # r' \<Rightarrow>
                        if d = CHR ''+'' then (False, r')
                        else if d = CHR ''-'' then (True, r')
                        else (False, r));
                 ed = takeWhile is_digit ds
             in if ed = [] then 0
                else if neg then - decimal_value ed else decimal_value ed)
          else 0)"

text \<open>
  The longest prefix of \<open>s\<close> that is a \<^verbatim>\<open>StrUnsignedDecimalLiteral\<close>, by its mathematical
  value: \<^verbatim>\<open>Infinity\<close>, or digits with an optional fraction and exponent
  (\<^verbatim>\<open>12\<close>, \<^verbatim>\<open>12.\<close>, \<^verbatim>\<open>12.5\<close>, \<^verbatim>\<open>.5\<close>, each with an optional exponent part).
\<close>

datatype str_literal = NoLiteral | InfinityLiteral | DecimalLiteral rat

definition StrUnsignedDecimalLiteral :: "string \<Rightarrow> str_literal" where
  "StrUnsignedDecimalLiteral s =
     (if prefix ''Infinity'' s then InfinityLiteral
      else
        let ip = takeWhile is_digit s;
            r1 = dropWhile is_digit s;
            fp = (case r1 of [] \<Rightarrow> [] | c # r \<Rightarrow> if c = CHR ''.'' then takeWhile is_digit r else []);
            r2 = (case r1 of [] \<Rightarrow> [] | c # r \<Rightarrow> if c = CHR ''.'' then dropWhile is_digit r else r1)
        in if ip = [] \<and> fp = [] then NoLiteral
           else DecimalLiteral
                  (of_int (decimal_value (ip @ fp)) * 10 powi (exponent_part r2 - int (length fp))))"

text \<open>
  The Number value of a mathematical value: the nearest double, the infinity when that
  has an exponent of 1024 or more, which is from \<open>2 ^ 1024\<close> on. (ECMAScript lets an
  engine replace the digits after the twentieth significant one by zeros before rounding;
  the engines in use round the exact value, as here.)
\<close>

definition to_number :: "bool \<Rightarrow> rat \<Rightarrow> number" where
  "to_number neg mv =
     (let d = round_double mv in if 1024 \<le> ilog2 d then Infinity neg else Finite neg d)"

definition parseFloat :: "string \<Rightarrow> number" where
  "parseFloat inputString =
     (let trimmed = trim_start inputString;
          (neg, unsigned) =
            (case trimmed of
               [] \<Rightarrow> (False, trimmed)
             | c # r \<Rightarrow>
                 if c = CHR ''-'' then (True, r)
                 else if c = CHR ''+'' then (False, r)
                 else (False, trimmed))
      in case StrUnsignedDecimalLiteral unsigned of
           NoLiteral \<Rightarrow> NaN
         | InfinityLiteral \<Rightarrow> Infinity neg
         | DecimalLiteral mv \<Rightarrow> to_number neg mv)"

subsection \<open>The platform\<close>

text \<open>
  What the utilities take from the engine they run on: the clock that \<^verbatim>\<open>new Date()\<close>
  reads, the date parser behind \<^verbatim>\<open>new Date(s)\<close> (its answer is the time value in
  milliseconds since the epoch, \<open>None\<close> for an invalid date; beyond the ECMAScript
  date-time format what it accepts is up to the engine), and the renderings of
  \<^verbatim>\<open>Intl\<close> for the locale \<^verbatim>\<open>en-US\<close>, which depend on the engine's locale data and on the time
  zone: \<^verbatim>\<open>{dateStyle: 'medium'}\<close>, \<^verbatim>\<open>{timeStyle: 'medium'}\<close>,
  \<^verbatim>\<open>{year: 'numeric', month: '2-digit', day: '2-digit'}\<close> on a valid time value, and
  \<^verbatim>\<open>{style: 'currency', currency: 'USD'}\<close> on a Number.
\<close>

record platform =
  clock :: int
  Date_parse :: "string \<Rightarrow> int option"
  format_dateStyle_medium :: "int \<Rightarrow> string"
  format_timeStyle_medium :: "int \<Rightarrow> string"
  format_numeric_2digit :: "int \<Rightarrow> string"
  format_currency_USD :: "number \<Rightarrow> string"

subsection \<open>\<^verbatim>\<open>convertToMoneyFormat\<close>\<close>

definition convertToMoneyFormat :: "platform \<Rightarrow> string \<Rightarrow> error + string" where
  "convertToMoneyFormat pf amount =
     (let parsedAmount = parseFloat amount
      in if isNaN parsedAmount then Inl (Error ''Invalid amount'')
         else Inr (format_currency_USD pf parsedAmount))"

subsection \<open>\<^verbatim>\<open>getCurrentDate\<close>, \<^verbatim>\<open>getCurrentTime\<close>\<close>

definition getCurrentDate :: "platform \<Rightarrow> string \<Rightarrow> string" where
  "getCurrentDate pf format =
     (let currentDate = clock pf in format_dateStyle_medium pf currentDate)"

definition getCurrentTime :: "platform \<Rightarrow> string \<Rightarrow> string" where
  "getCurrentTime pf format =
     (let currentDate = clock pf in format_timeStyle_medium pf currentDate)"

subsection \<open>\<^verbatim>\<open>changeDateFormat\<close>\<close>

text \<open>
  A match of the regular expression \<^verbatim>\<open>/(\d{2})\/(\d{2})\/(\d{4})/\<close> at the start of a
  string: the three groups and the rest of the string.
\<close>

fun match_here :: "string \<Rightarrow> (string \<times> string \<times> string \<times> string) option" where
  "match_here (a # b # s1 # c # d # s2 # e # f # g # h # rest) =
     (if is_digit a \<and> is_digit b \<and> s1 = CHR ''/'' \<and> is_digit c \<and> is_digit d \<and> s2 = CHR ''/''
         \<and> is_digit e \<and> is_digit f \<and> is_digit g \<and> is_digit h
      then Some ([a, b], [c, d], [e, f, g, h], rest)
      else None)"
| "match_here s = None"

text \<open>
  \<^verbatim>\<open>s.replace(/(\d{2})\/(\d{2})\/(\d{4})/, '$2/$1/$3')\<close>: the leftmost match is replaced
  by its groups in the order 2, 1, 3; a string with no match is returned as it is.
\<close>

fun replace_swap :: "string \<Rightarrow> string" where
  "replace_swap [] = []"
| "replace_swap (c # cs) =
     (case match_here (c # cs) of
        Some (g1, g2, g3, rest) \<Rightarrow> g2 @ ''/'' @ g1 @ ''/'' @ g3 @ rest
      | None \<Rightarrow> c # replace_swap cs)"

text \<open>
  \<^verbatim>\<open>formatter.format(date)\<close> throws a \<^verbatim>\<open>RangeError\<close> on an invalid date. Neither
  \<^verbatim>\<open>inputFormat\<close> nor \<^verbatim>\<open>outputFormat\<close> is read.
\<close>

definition changeDateFormat :: "platform \<Rightarrow> string \<Rightarrow> string \<Rightarrow> string \<Rightarrow> error + string" where
  "changeDateFormat pf inputDate inputFormat outputFormat =
     (let date = Date_parse pf inputDate
      in case date of
           None \<Rightarrow> Inl RangeError
         | Some t \<Rightarrow>
             (let formattedDate = format_numeric_2digit pf t
              in Inr (replace_swap formattedDate)))"

subsection \<open>The page handle\<close>

text \<open>
  The class holds a Playwright \<^verbatim>\<open>Page\<close>. The methods of the page and of its locators that
  the wrappers below call are the fields of a record, over a type \<open>'w\<close> of states of the
  browser and a type \<open>'l\<close> of locators: an awaited call takes the state and returns its
  result, or the error its promise is rejected with, and the state after it.
  \<^verbatim>\<open>page.on('dialog', listener)\<close> only records the listener.

  The one listener of the source is the arrow function in \<^verbatim>\<open>getTextAndAcceptAlert\<close>,
  which is closed over the local variable \<^verbatim>\<open>alertText\<close>: \<open>CaptureAndAccept a\<close> is that
  function for the variable at address \<open>a\<close>.
\<close>

datatype listener = CaptureAndAccept nat

record ('l, 'w) page =
  Page_locator :: "string \<Rightarrow> 'l"
  Locator_hover :: "'l \<Rightarrow> 'w \<Rightarrow> (error + unit) \<times> 'w"
  Locator_isVisible :: "'l \<Rightarrow> 'w \<Rightarrow> (error + bool) \<times> 'w"
  Locator_textContent :: "'l \<Rightarrow> 'w \<Rightarrow> (error + string option) \<times> 'w"
  Page_on_dialog :: "listener \<Rightarrow> 'w \<Rightarrow> 'w"

definition hover :: "('l, 'w) page \<Rightarrow> string \<Rightarrow> 'w \<Rightarrow> (error + unit) \<times> 'w" where
  "hover pg locator w = (let element = Page_locator pg locator in Locator_hover pg element w)"

definition moveToElement :: "('l, 'w) page \<Rightarrow> string \<Rightarrow> 'w \<Rightarrow> (error + unit) \<times> 'w" where
  "moveToElement pg locator w =
     (let element = Page_locator pg locator in Locator_hover pg element w)"

definition isElementAvailable :: "('l, 'w) page \<Rightarrow> string \<Rightarrow> 'w \<Rightarrow> (error + bool) \<times> 'w" where
  "isElementAvailable pg locator w =
     (let element = Page_locator pg locator in Locator_isVisible pg element w)"

text \<open>\<^verbatim>\<open>textContent()\<close> may resolve to \<^verbatim>\<open>null\<close>, which is \<open>None\<close>.\<close>

definition getText :: "('l, 'w) page \<Rightarrow> string \<Rightarrow> 'w \<Rightarrow> (error + string option) \<times> 'w" where
  "getText pg locator w =
     (let element = Page_locator pg locator in Locator_textContent pg element w)"

definition compareText :: "('l, 'w) page \<Rightarrow> string \<Rightarrow> string \<Rightarrow> 'w \<Rightarrow> (error + bool) \<times> 'w" where
  "compareText pg locator1 locator2 w =
     (case getText pg locator1 w of
        (Inl e, w1) \<Rightarrow> (Inl e, w1)
      | (Inr text1, w1) \<Rightarrow>
          (case getText pg locator2 w1 of
             (Inl e, w2) \<Rightarrow> (Inl e, w2)
           | (Inr text2, w2) \<Rightarrow> (Inr (text1 = text2), w2)))"

text \<open>
  The variables that closures share with the code that created them live in a store:
  \<open>var_value\<close> by address, \<open>var_fresh\<close> the next free address.
\<close>

record js_vars =
  var_value :: "nat \<Rightarrow> string"
  var_fresh :: nat

text \<open>
  \<^verbatim>\<open>getTextAndAcceptAlert\<close>: \<^verbatim>\<open>let alertText = ''\<close> takes a fresh variable, the listener
  closed over it is registered, and the variable is read for the result. The function
  has no \<^verbatim>\<open>await\<close>: it runs to its \<^verbatim>\<open>return\<close> before any event is dispatched.
\<close>

definition getTextAndAcceptAlert :: "('l, 'w) page \<Rightarrow> js_vars \<times> 'w \<Rightarrow> string \<times> (js_vars \<times> 'w)" where
  "getTextAndAcceptAlert pg s =
     (let (vars, w) = s;
          alertText = var_fresh vars;
          vars1 = vars\<lparr>var_value := (var_value vars)(alertText := ''''), var_fresh := Suc alertText\<rparr>;
          w1 = Page_on_dialog pg (CaptureAndAccept alertText) w
      in (var_value vars1 alertText, (vars1, w1)))"

text \<open>
  The body of the listener, run on a dialog: \<^verbatim>\<open>alertText = dialog.message()\<close>, then
  \<^verbatim>\<open>dialog.accept()\<close>.
\<close>

record dialog =
  dialog_message :: string
  dialog_accepted :: bool

fun run_listener :: "listener \<Rightarrow> dialog \<Rightarrow> js_vars \<Rightarrow> js_vars \<times> dialog" where
  "run_listener (CaptureAndAccept a) d vars =
     (vars\<lparr>var_value := (var_value vars)(a := dialog_message d)\<rparr>, d\<lparr>dialog_accepted := True\<rparr>)"

subsection \<open>A reference platform\<close>

text \<open>
  One platform, to run the utilities on concrete inputs: an engine in the time zone UTC
  whose date parser accepts the date-only form \<^verbatim>\<open>YYYY-MM-DD\<close> of the ECMAScript date-time
  string format and takes every other string for an invalid date, and whose \<^verbatim>\<open>Intl\<close>
  renders with the CLDR patterns of \<^verbatim>\<open>en-US\<close>: \<^verbatim>\<open>MMM d, y\<close>, \<^verbatim>\<open>h:mm:ss a\<close> (with U+202F
  before the day period, as CLDR has it since release 42), \<^verbatim>\<open>MM/dd/y\<close> and, for the
  currency, a sign, \<^verbatim>\<open>$\<close>, the integer digits in groups of three and two fraction digits,
  the exact value rounded half away from zero as ECMA-402 words it.
\<close>

text \<open>The decimal digits of a non-negative integer.\<close>

function decimal :: "int \<Rightarrow> string" where
  "decimal n =
     (if n < 10 then [''0123456789'' ! nat n]
      else decimal (n div 10) @ [''0123456789'' ! nat (n mod 10)])"
  by pat_completeness auto
termination
  by (relation "measure nat") auto

declare decimal.simps [simp del]

definition pad2 :: "int \<Rightarrow> string" where
  "pad2 n = (if n < 10 then CHR ''0'' # decimal n else decimal n)"

fun commas :: "string \<Rightarrow> string" where
  "commas (a # b # c # d # rest) = a # b # c # CHR '','' # commas (d # rest)"
| "commas ds = ds"

definition group3 :: "string \<Rightarrow> string" where
  "group3 ds = rev (commas (rev ds))"

definition en_US_currency :: "number \<Rightarrow> string" where
  "en_US_currency x =
     (case x of
        NaN \<Rightarrow> ''$NaN''
      | Infinity neg \<Rightarrow> (if neg then ''-'' else '''') @ ''$'' @ [CHR 0xE2, CHR 0x88, CHR 0x9E]
      | Finite neg m \<Rightarrow>
          (let cents = \<lfloor>m * 100 + 1 / 2\<rfloor>
           in (if neg then ''-'' else '''') @ ''$'' @ group3 (decimal (cents div 100))
              @ ''.'' @ pad2 (cents mod 100)))"

text \<open>
  The proleptic Gregorian calendar: the day number of a date, counted from 1970-01-01,
  and the date (year, month, day) of a day number.
\<close>

definition days_from_civil :: "int \<Rightarrow> int \<Rightarrow> int \<Rightarrow> int" where
  "days_from_civil y m d =
     (let y' = (if m \<le> 2 then y - 1 else y);
          era = y' div 400;
          yoe = y' - era * 400;
          doy = (153 * (if 2 < m then m - 3 else m + 9) + 2) div 5 + d - 1;
          doe = yoe * 365 + yoe div 4 - yoe div 100 + doy
      in era * 146097 + doe - 719468)"

definition civil_from_days :: "int \<Rightarrow> int \<times> int \<times> int" where
  "civil_from_days z =
     (let z' = z + 719468;
          era = z' div 146097;
          doe = z' - era * 146097;
          yoe = (doe - doe div 1460 + doe div 36524 - doe div 146096) div 365;
          doy = doe - (365 * yoe + yoe div 4 - yoe div 100);
          mp = (5 * doy + 2) div 153;
          d = doy - (153 * mp + 2) div 5 + 1;
          m = (if mp < 10 then mp + 3 else mp - 9);
          y = yoe + era * 400
      in (if m \<le> 2 then y + 1 else y, m, d))"

definition days_in_month :: "int \<Rightarrow> int \<Rightarrow> int" where
  "days_in_month y m =
     (if m = 2 then (if y mod 4 = 0 \<and> (y mod 100 \<noteq> 0 \<or> y mod 400 = 0) then 29 else 28)
      else if m = 4 \<or> m = 6 \<or> m = 9 \<or> m = 11 then 30
      else 31)"

fun iso_date_only :: "string \<Rightarrow> int option" where
  "iso_date_only [y1, y2, y3, y4, h1, m1, m2, h2, d1, d2] =
     (if list_all is_digit [y1, y2, y3, y4, m1, m2, d1, d2] \<and> h1 = CHR ''-'' \<and> h2 = CHR ''-''
      then
        (let y = decimal_value [y1, y2, y3, y4];
             m = decimal_value [m1, m2];
             d = decimal_value [d1, d2]
         in if 1 \<le> m \<and> m \<le> 12 \<and> 1 \<le> d \<and> d \<le> days_in_month y m
            then Some (days_from_civil y m d * 86400000)
            else None)
      else None)"
| "iso_date_only s = None"

definition en_US_numeric_date :: "int \<Rightarrow> string" where
  "en_US_numeric_date t =
     (let (y, m, d) = civil_from_days (t div 86400000)
      in pad2 m @ ''/'' @ pad2 d @ ''/'' @ decimal (if 0 < y then y else 1 - y))"

definition en_US_medium_date :: "int \<Rightarrow> string" where
  "en_US_medium_date t =
     (let (y, m, d) = civil_from_days (t div 86400000)
      in [''Jan'', ''Feb'', ''Mar'', ''Apr'', ''May'', ''Jun'',
          ''Jul'', ''Aug'', ''Sep'', ''Oct'', ''Nov'', ''Dec''] ! nat (m - 1)
         @ '' '' @ decimal d @ '', '' @ decimal (if 0 < y then y else 1 - y))"

definition en_US_medium_time :: "int \<Rightarrow> string" where
  "en_US_medium_time t =
     (let ms = t mod 86400000;
          h = ms div 3600000;
          mi = ms div 60000 mod 60;
          sec = ms div 1000 mod 60
      in decimal (if h mod 12 = 0 then 12 else h mod 12) @ '':'' @ pad2 mi
         @ '':'' @ pad2 sec @ [CHR 0xE2, CHR 0x80, CHR 0xAF]
         @ (if h < 12 then ''AM'' else ''PM''))"

definition reference_platform :: platform where
  "reference_platform =
     \<lparr>clock = 1710460800000,
      Date_parse = iso_date_only,
      format_dateStyle_medium = en_US_medium_date,
      format_timeStyle_medium = en_US_medium_time,
      format_numeric_2digit = en_US_numeric_date,
      format_currency_USD = en_US_currency\<rparr>"

subsection \<open>A page handle\<close>

text \<open>
  Playwright is not part of the sources. The definitions of this subsection give one page
  handle, from what the specification says of the handle's capabilities; they are used
  where a statement is about what the handle itself returns, and to run the wrappers on a
  concrete page.
\<close>

record element =
  el_visible :: bool
  el_textContent :: "string option"

text \<open>
  Modelled from the spec: the state of the page behind the handle (section 3, a locator
  is "an opaque string selector naming zero-or-one-or-many elements on the current page",
  resolved "at call time"): the elements each selector matches now, the element under the
  pointer, and the listeners subscribed to the dialog event.
\<close>

record browser =
  matching :: "string \<Rightarrow> element list"
  pointer_on :: "element option"
  dialog_listeners :: "listener list"

text \<open>
  Modelled from the spec: the resolution of a locator for an action on one element; an
  operation fails with \<open>InteractionError\<close> "if the underlying handle cannot resolve" the
  locator, which is the case when it matches no element or more than one.
\<close>

definition resolve_one :: "string \<Rightarrow> browser \<Rightarrow> error + element" where
  "resolve_one selector b =
     (case matching b selector of [e] \<Rightarrow> Inr e | _ \<Rightarrow> Inl InteractionError)"

text \<open>
  Modelled from the spec: the pointer hover of the handle (Playwright's
  \<^verbatim>\<open>Locator.hover\<close>), "move the pointer over the resolved element"; it fails when the
  locator does not resolve or the element is not visible.
\<close>

definition browser_hover :: "string \<Rightarrow> browser \<Rightarrow> (error + unit) \<times> browser" where
  "browser_hover selector b =
     (case resolve_one selector b of
        Inl e \<Rightarrow> (Inl e, b)
      | Inr el \<Rightarrow>
          if el_visible el then (Inr (), b\<lparr>pointer_on := Some el\<rparr>)
          else (Inl InteractionError, b))"

text \<open>
  Modelled from the spec: the element visibility query of the handle (Playwright's
  \<^verbatim>\<open>Locator.isVisible\<close>), a "non-blocking visibility check" that "never throws for `not
  found', returns false instead"; on one element it is the element's visibility, and a
  locator that matches several elements cannot be resolved.
\<close>

definition browser_isVisible :: "string \<Rightarrow> browser \<Rightarrow> (error + bool) \<times> browser" where
  "browser_isVisible selector b =
     (case matching b selector of
        [] \<Rightarrow> (Inr False, b)
      | [e] \<Rightarrow> (Inr (el_visible e), b)
      | _ \<Rightarrow> (Inl InteractionError, b))"

text \<open>
  Modelled from the spec: the text-content read of the handle (Playwright's
  \<^verbatim>\<open>Locator.textContent\<close>), which "returns resolved element's text content".
\<close>

definition browser_textContent :: "string \<Rightarrow> browser \<Rightarrow> (error + string option) \<times> browser" where
  "browser_textContent selector b =
     (case resolve_one selector b of
        Inl e \<Rightarrow> (Inl e, b)
      | Inr el \<Rightarrow> (Inr (el_textContent el), b))"

text \<open>
  Modelled from the spec: the dialog-event subscription of the handle (Playwright's
  \<^verbatim>\<open>page.on('dialog', ...)\<close>), which records the listener, and the dispatch of a dialog
  event, which runs the recorded listeners on the dialog in the order of their
  subscription.
\<close>

definition browser_on_dialog :: "listener \<Rightarrow> browser \<Rightarrow> browser" where
  "browser_on_dialog l b = b\<lparr>dialog_listeners := dialog_listeners b @ [l]\<rparr>"

definition dialog_opens :: "string \<Rightarrow> js_vars \<times> browser \<Rightarrow> (js_vars \<times> dialog) \<times> browser" where
  "dialog_opens message s =
     (let (vars, b) = s
      in (foldl (\<lambda>(v, d) l. run_listener l d v)
            (vars, \<lparr>dialog_message = message, dialog_accepted = False\<rparr>)
            (dialog_listeners b), b))"

text \<open>Modelled from the spec: the page handle made of the capabilities above.\<close>

definition playwright :: "(string, browser) page" where
  "playwright =
     \<lparr>Page_locator = (\<lambda>selector. selector),
      Locator_hover = browser_hover,
      Locator_isVisible = browser_isVisible,
      Locator_textContent = browser_textContent,
      Page_on_dialog = browser_on_dialog\<rparr>"

text \<open>
  A page to run the wrappers on: \<^verbatim>\<open>#title\<close> and \<^verbatim>\<open>#heading\<close> show texts that differ in case
  and in a trailing blank, \<^verbatim>\<open>#empty\<close> has the empty text, \<^verbatim>\<open>li\<close> matches two elements, and
  no other selector matches.
\<close>

definition sample_page :: browser where
  "sample_page =
     \<lparr>matching =
        (\<lambda>selector.
           if selector = ''#title'' then [\<lparr>el_visible = True, el_textContent = Some ''Hello''\<rparr>]
           else if selector = ''#heading''
             then [\<lparr>el_visible = True, el_textContent = Some ''hello ''\<rparr>]
           else if selector = ''#empty'' then [\<lparr>el_visible = False, el_textContent = Some ''''\<rparr>]
           else if selector = ''li''
             then [\<lparr>el_visible = True, el_textContent = Some ''one''\<rparr>,
                   \<lparr>el_visible = True, el_textContent = Some ''two''\<rparr>]
           else []),
      pointer_on = None,
      dialog_listeners = []\<rparr>"

section \<open>Properties\<close>

subsection \<open>Rounding to a double\<close>

lemma bitlen_powi:
  assumes "0 < a"
  shows "(2::rat) powi (bitlen a - 1) \<le> of_int a" and "of_int a < (2::rat) powi (bitlen a)"
proof -
  have la: "1 \<le> bitlen a"
    using assms bitlen_eq_zero_iff[of a] bitlen_nonneg[of a] by linarith
  have "(2::int) ^ nat (bitlen a - 1) \<le> a" and "a < 2 ^ nat (bitlen a)"
    using bitlen_bounds[OF assms] by blast+
  hence "rat_of_int (2 ^ nat (bitlen a - 1)) \<le> of_int a"
    and "rat_of_int a < of_int (2 ^ nat (bitlen a))"
    by (simp_all only: of_int_le_iff of_int_less_iff)
  hence "(2::rat) ^ nat (bitlen a - 1) \<le> of_int a" and "rat_of_int a < 2 ^ nat (bitlen a)"
    by simp_all
  thus "(2::rat) powi (bitlen a - 1) \<le> of_int a" and "of_int a < (2::rat) powi (bitlen a)"
    using la by (simp_all add: power_int_nonneg_exp)
qed

lemma ilog2_bounds:
  assumes "0 < q"
  shows "2 powi (ilog2 q) \<le> q" and "q < 2 powi (ilog2 q + 1)"
proof -
  obtain a b where ab: "quotient_of q = (a, b)" by (cases "quotient_of q")
  have b: "0 < b" using ab quotient_of_denom_pos by blast
  have q: "q = of_int a / of_int b" using ab quotient_of_div by blast
  have a: "0 < a" using assms b q by (simp add: zero_less_divide_iff)
  define k where "k = bitlen a - bitlen b"
  have bpos: "0 < rat_of_int b" using b by simp
  have lo: "(2::rat) powi (k - 1) < q"
  proof -
    have "(2::rat) powi (k - 1) * of_int b < 2 powi (k - 1) * 2 powi (bitlen b)"
      using bitlen_powi(2)[OF b] by (intro mult_strict_left_mono) simp_all
    also have "\<dots> = 2 powi (bitlen a - 1)"
      unfolding k_def by (simp flip: power_int_add)
    also have "\<dots> \<le> of_int a" using bitlen_powi(1)[OF a] .
    finally show ?thesis using bpos by (simp add: q pos_less_divide_eq)
  qed
  have hi: "q < (2::rat) powi (k + 1)"
  proof -
    have "rat_of_int a < 2 powi (bitlen a)" using bitlen_powi(2)[OF a] .
    also have "\<dots> = 2 powi (k + 1) * 2 powi (bitlen b - 1)"
      unfolding k_def by (simp flip: power_int_add)
    also have "\<dots> \<le> 2 powi (k + 1) * of_int b"
      using bitlen_powi(1)[OF b] by (intro mult_left_mono) simp_all
    finally show ?thesis using bpos by (simp add: q pos_divide_less_eq)
  qed
  have il: "ilog2 q = (if q < 2 powi k then k - 1 else k)"
    by (simp add: ilog2_def ab k_def)
  show "2 powi (ilog2 q) \<le> q" using lo by (simp add: il)
  show "q < 2 powi (ilog2 q + 1)" using hi by (simp add: il)
qed

lemma powi_less_imp_less:
  assumes "(2::rat) powi m < 2 powi n"
  shows "m < n"
proof (rule ccontr)
  assume "\<not> m < n"
  hence "n \<le> m" by simp
  hence "(2::rat) powi n \<le> 2 powi m" by (intro power_int_increasing) simp_all
  thus False using assms by simp
qed

lemma ilog2_unique:
  assumes "2 powi e \<le> q" "q < 2 powi (e + 1)"
  shows "ilog2 q = e"
proof -
  have q: "0 < q" using assms(1) zero_less_power_int[of "2::rat" e] by linarith
  have "(2::rat) powi e < 2 powi (ilog2 q + 1)"
    using assms(1) ilog2_bounds(2)[OF q] by linarith
  hence 1: "e < ilog2 q + 1" by (rule powi_less_imp_less)
  have "(2::rat) powi (ilog2 q) < 2 powi (e + 1)"
    using assms(2) ilog2_bounds(1)[OF q] by linarith
  hence 2: "ilog2 q < e + 1" by (rule powi_less_imp_less)
  show ?thesis using 1 2 by linarith
qed

lemma roundTiesToEven_le:
  assumes "x < of_int N - 1/2"
  shows "roundTiesToEven x \<le> N - 1"
proof -
  have "x < of_int N" using assms by linarith
  hence "\<lfloor>x\<rfloor> < N" by (simp only: floor_less_iff)
  hence f: "\<lfloor>x\<rfloor> \<le> N - 1" by linarith
  show ?thesis
  proof (cases "\<lfloor>x\<rfloor> = N - 1")
    case True
    hence "x - of_int \<lfloor>x\<rfloor> < 1/2" using assms by simp
    thus ?thesis using True by (simp add: roundTiesToEven_def Let_def)
  next
    case False
    hence "\<lfloor>x\<rfloor> + 1 \<le> N - 1" using f by linarith
    thus ?thesis using f by (simp add: roundTiesToEven_def Let_def)
  qed
qed

lemma roundTiesToEven_le_int:
  assumes "x \<le> of_int N"
  shows "roundTiesToEven x \<le> N"
proof (cases "x = of_int N")
  case True
  thus ?thesis by (simp add: roundTiesToEven_def Let_def)
next
  case False
  hence "x < of_int N" using assms by simp
  hence "\<lfloor>x\<rfloor> < N" by (simp only: floor_less_iff)
  hence "\<lfloor>x\<rfloor> + 1 \<le> N" by linarith
  thus ?thesis by (simp add: roundTiesToEven_def Let_def)
qed

lemma roundTiesToEven_nonneg:
  assumes "0 \<le> x"
  shows "0 \<le> roundTiesToEven x"
  using assms by (simp add: roundTiesToEven_def Let_def)

lemma round_double_nonneg:
  assumes "0 \<le> q"
  shows "0 \<le> round_double q"
proof -
  have u: "0 < ulp q" by (simp add: ulp_def)
  hence "0 \<le> q / ulp q" using assms by simp
  hence "0 \<le> roundTiesToEven (q / ulp q)" by (rule roundTiesToEven_nonneg)
  thus ?thesis using u by (simp add: round_double_def)
qed

text \<open>Rounding does not cross a power of two.\<close>

lemma round_double_le_pow2:
  assumes "0 < q" "q < 2 powi j" "- 1022 < j"
  shows "round_double q \<le> 2 powi j"
proof -
  define e where "e = max (ilog2 q) (- 1022)"
  have u: "ulp q = 2 powi (e - 52)" by (simp add: ulp_def e_def)
  have upos: "0 < ulp q" by (simp add: u)
  have "(2::rat) powi (ilog2 q) < 2 powi j"
    using ilog2_bounds(1)[OF assms(1)] assms(2) by linarith
  hence "ilog2 q < j" by (rule powi_less_imp_less)
  hence ej: "e + 1 \<le> j" using assms(3) by (simp add: e_def)
  have "q < 2 powi (ilog2 q + 1)" using ilog2_bounds(2)[OF assms(1)] .
  also have "\<dots> \<le> 2 powi (e + 1)"
    by (intro power_int_increasing) (simp_all add: e_def)
  finally have qe: "q < 2 powi (e + 1)" .
  have "q / ulp q < 2 powi (e + 1) / ulp q"
    using qe upos by (simp add: divide_strict_right_mono)
  also have "\<dots> = 2 powi 53"
    unfolding u by (simp flip: power_int_diff)
  finally have "q / ulp q \<le> of_int (2 ^ 53)" by simp
  hence "roundTiesToEven (q / ulp q) \<le> 2 ^ 53" by (rule roundTiesToEven_le_int)
  hence "rat_of_int (roundTiesToEven (q / ulp q)) \<le> of_int (2 ^ 53)"
    by (simp only: of_int_le_iff)
  hence "rat_of_int (roundTiesToEven (q / ulp q)) * ulp q \<le> of_int (2 ^ 53) * ulp q"
    using upos by (intro mult_right_mono) simp_all
  also have "of_int (2 ^ 53) * ulp q = 2 powi 53 * 2 powi (e - 52)"
    by (simp add: u)
  also have "\<dots> = 2 powi (e + 1)"
    using power_int_add[of "2::rat" 53 "e - 52"] by (simp add: add.commute)
  also have "\<dots> \<le> 2 powi j"
    using ej by (intro power_int_increasing) simp_all
  finally show ?thesis using assms(1) by (simp add: round_double_def)
qed

text \<open>The largest double below 1 is \<open>1 - 1 / 2 ^ 53\<close>.\<close>

lemma double_below_one:
  assumes "0 \<le> r" "r < 1" "round_double r = r"
  shows "r \<le> 1 - 1 / 2 ^ 53"
proof (cases "r < 1 / 2")
  case True
  thus ?thesis by simp
next
  case False
  hence rpos: "0 < r" by simp
  have "ilog2 r = - 1"
    using False assms(2) by (intro ilog2_unique) (simp_all add: power_int_minus_divide)
  hence u: "ulp r = 1 / 2 ^ 53" by (simp add: ulp_def power_int_minus_divide)
  define n where "n = roundTiesToEven (r / ulp r)"
  have r: "r = of_int n / 2 ^ 53"
    using assms(3) rpos by (simp add: round_double_def n_def u)
  hence "rat_of_int n < of_int (2 ^ 53)" using assms(2) by simp
  hence "n < 2 ^ 53" by (simp only: of_int_less_iff)
  hence "n \<le> 2 ^ 53 - 1" by linarith
  hence "rat_of_int n \<le> of_int (2 ^ 53 - 1)" by (simp only: of_int_le_iff)
  thus ?thesis by (simp add: r field_simps)
qed

lemma of_nat_pow2_less:
  fixes len L :: nat
  assumes "2 ^ L < len"
  shows "(2::rat) ^ L < of_nat len"
proof -
  have "(of_nat (2 ^ L) :: rat) < of_nat len" using assms by (simp only: of_nat_less_iff)
  thus ?thesis by simp
qed

lemma of_nat_less_pow2:
  fixes len L :: nat
  assumes "len < 2 ^ (L + 1)"
  shows "(of_nat len :: rat) < 2 ^ (L + 1)"
proof -
  have "(of_nat len :: rat) < of_nat (2 ^ (L + 1))" using assms by (simp only: of_nat_less_iff)
  thus ?thesis by simp
qed

lemma pow2_split_53:
  fixes L :: nat
  assumes "L \<le> 52"
  shows "(2::rat) ^ (52 - L) * 2 ^ (L + 1) = 2 ^ 53"
proof -
  have "(2::rat) ^ (52 - L) * 2 ^ (L + 1) = 2 ^ ((52 - L) + (L + 1))" by (simp only: power_add)
  also have "(52 - L) + (L + 1) = 53" using assms by simp
  finally show ?thesis .
qed

lemma powi_below_52:
  fixes L :: nat
  assumes "L \<le> 52"
  shows "(2::rat) powi (int L - 52) = 1 / 2 ^ (52 - L)"
proof -
  have "(2::rat) powi (int L - 52) = 2 powi (- int (52 - L))" using assms by (simp add: of_nat_diff)
  also have "\<dots> = 1 / 2 powi (int (52 - L))" by (simp only: power_int_minus_divide)
  finally show ?thesis by simp
qed

lemma half_ulp_ratio:
  fixes p :: rat
  assumes "p * 2 ^ (L + 1) = 2 ^ 53"
  shows "p / 2 ^ 53 = 1 / 2 ^ (L + 1)"
proof -
  have "p / 2 ^ 53 = p / (p * 2 ^ (L + 1))" by (simp only: assms)
  also have "\<dots> = 1 / 2 ^ (L + 1)" using assms by (cases "p = 0") simp_all
  finally show ?thesis .
qed

lemma more_than_half:
  fixes x :: rat
  assumes "(2::rat) ^ L < x"
  shows "N - x * (1 / 2 ^ (L + 1)) < N - 1 / 2"
proof -
  have "2 ^ L * (1 / 2 ^ (L + 1)) < x * (1 / 2 ^ (L + 1))"
    using assms by (intro mult_strict_right_mono) simp_all
  moreover have "(2::rat) ^ L * (1 / 2 ^ (L + 1)) = 1 / 2" by simp
  ultimately show ?thesis by linarith
qed

lemma round_double_in_binade_less:
  fixes len L :: nat
  assumes q: "2 ^ L \<le> q" "q \<le> (1 - 1 / 2 ^ 53) * of_nat len"
    and len: "2 ^ L < len" "len < 2 ^ (L + 1)" and L: "L \<le> 52"
  shows "round_double q < of_nat len"
proof -
  have lo: "(2::rat) ^ L < of_nat len" using len(1) by (rule of_nat_pow2_less)
  have hi: "(of_nat len :: rat) < 2 ^ (L + 1)" using len(2) by (rule of_nat_less_pow2)
  have lenpos: "0 < (of_nat len :: rat)" using lo zero_less_power[of "2::rat" L] by linarith
  have qpos: "0 < q" using q(1) zero_less_power[of "2::rat" L] by linarith
  have "(1 - 1 / 2 ^ 53) * (of_nat len :: rat) < 1 * of_nat len"
    using lenpos by (intro mult_strict_right_mono) simp_all
  hence qlt: "q < of_nat len" using q(2) by simp
  have "(2::rat) powi (int L) \<le> q" using q(1) by simp
  moreover have "q < 2 powi (int L + 1)" using qlt hi by (simp add: power_int_add)
  ultimately have "ilog2 q = int L" by (rule ilog2_unique)
  hence u: "ulp q = 2 powi (int L - 52)" by (simp add: ulp_def)
  define p :: rat where "p = 2 ^ (52 - L)"
  have ppos: "0 < p" by (simp add: p_def)
  have up: "ulp q = 1 / p" unfolding u p_def using L by (rule powi_below_52)
  define N :: int where "N = int len * 2 ^ (52 - L)"
  have Np: "rat_of_int N = of_nat len * p" by (simp add: N_def p_def)
  have pL: "p * 2 ^ (L + 1) = 2 ^ 53" unfolding p_def using L by (rule pow2_split_53)
  have "q / ulp q = q * p" by (simp add: up)
  also have "\<dots> \<le> (1 - 1 / 2 ^ 53) * of_nat len * p"
    using q(2) ppos by (intro mult_right_mono) simp_all
  also have "\<dots> = of_nat len * p - of_nat len * (p / 2 ^ 53)"
    by (simp only: left_diff_distrib mult_1 times_divide_eq_left times_divide_eq_right mult.assoc)
  also have "p / 2 ^ 53 = 1 / 2 ^ (L + 1)" using pL by (rule half_ulp_ratio)
  also have "of_nat len * p - of_nat len * (1 / 2 ^ (L + 1)) < of_nat len * p - 1 / 2"
    using lo by (rule more_than_half)
  finally have "q / ulp q < of_int N - 1 / 2" by (simp only: Np)
  hence "roundTiesToEven (q / ulp q) \<le> N - 1"
    by (rule roundTiesToEven_le)
  hence "rat_of_int (roundTiesToEven (q / ulp q)) \<le> of_int (N - 1)"
    by (simp only: of_int_le_iff)
  hence "rat_of_int (roundTiesToEven (q / ulp q)) * (1 / p) \<le> of_int (N - 1) * (1 / p)"
    using ppos by (intro mult_right_mono) simp_all
  also have "of_int (N - 1) * (1 / p) = (of_nat len * p - 1) * (1 / p)"
    by (simp only: of_int_diff Np of_int_1)
  also have "\<dots> = of_nat len - 1 / p"
    using ppos by (simp add: diff_divide_distrib)
  also have "\<dots> < of_nat len" using ppos by simp
  finally show ?thesis using qpos by (simp add: round_double_def up)
qed

text \<open>
  The product of a double below 1 and a length that is not a power of two rounds to a
  double below the length.
\<close>

lemma round_double_product_less:
  fixes len L :: nat
  assumes r: "0 \<le> r" "r < 1" "round_double r = r"
    and len: "2 ^ L < len" "len < 2 ^ (L + 1)" and L: "L \<le> 52"
  shows "round_double (r * of_nat len) < of_nat len"
proof -
  define q where "q = r * of_nat len"
  have lo: "(2::rat) ^ L < of_nat len" using len(1) by (rule of_nat_pow2_less)
  have lenpos: "0 < (of_nat len :: rat)" using lo zero_less_power[of "2::rat" L] by linarith
  have q0: "0 \<le> q" unfolding q_def using r(1) lenpos by simp
  have qle: "q \<le> (1 - 1 / 2 ^ 53) * of_nat len"
    unfolding q_def using double_below_one[OF r] lenpos by (intro mult_right_mono) simp_all
  consider "q = 0" | "0 < q" "q < 2 ^ L" | "2 ^ L \<le> q" using q0 by linarith
  hence "round_double q < of_nat len"
  proof cases
    case 1
    thus ?thesis using lenpos by (simp add: round_double_def)
  next
    case 2
    have "q < 2 powi (int L)" using 2(2) by simp
    with 2(1) have "round_double q \<le> 2 powi (int L)"
      by (rule round_double_le_pow2) simp
    hence "round_double q \<le> 2 ^ L" by simp
    with lo show ?thesis by linarith
  next
    case 3
    thus ?thesis using qle len L by (rule round_double_in_binade_less)
  qed
  thus ?thesis by (simp only: q_def)
qed

lemma roundTiesToEven_of_int: "roundTiesToEven (of_int m) = m"
  by (simp add: roundTiesToEven_def Let_def)

text \<open>
  Rounding moves a positive value to a multiple of the spacing at that value, at most half
  a spacing away: the nearest double.
\<close>

lemma roundTiesToEven_near: "\<bar>of_int (roundTiesToEven x) - x\<bar> \<le> 1 / 2"
proof -
  have "of_int \<lfloor>x\<rfloor> \<le> x" "x < of_int \<lfloor>x\<rfloor> + 1" by linarith+
  thus ?thesis by (auto simp: roundTiesToEven_def Let_def abs_le_iff)
qed

lemma round_double_nearest:
  assumes "0 < q"
  shows "round_double q = of_int (roundTiesToEven (q / ulp q)) * ulp q"
    and "\<bar>round_double q - q\<bar> \<le> ulp q / 2"
proof -
  have u: "0 < ulp q" by (simp add: ulp_def)
  show r: "round_double q = of_int (roundTiesToEven (q / ulp q)) * ulp q"
    using assms by (simp add: round_double_def)
  have "round_double q - q = (of_int (roundTiesToEven (q / ulp q)) - q / ulp q) * ulp q"
    using u by (simp add: r left_diff_distrib)
  hence "\<bar>round_double q - q\<bar> = \<bar>of_int (roundTiesToEven (q / ulp q)) - q / ulp q\<bar> * ulp q"
    using u by (simp add: abs_mult)
  also have "\<dots> \<le> 1 / 2 * ulp q"
    using roundTiesToEven_near[of "q / ulp q"] u by (intro mult_right_mono) simp_all
  finally show "\<bar>round_double q - q\<bar> \<le> ulp q / 2" by simp
qed

text \<open>
  Every \<open>m * 2 powi j\<close> with a significand \<open>m\<close> below \<open>2 ^ 53\<close> and an exponent \<open>j\<close> from
  \<open>- 1074\<close> on is a double: rounding leaves it as it is.
\<close>

lemma round_double_exact:
  assumes m: "0 \<le> m" "m < 2 ^ 53" and j: "- 1074 \<le> j"
  shows "round_double (of_int m * 2 powi j) = of_int m * 2 powi j"
proof (cases "m = 0")
  case True
  thus ?thesis by (simp add: round_double_def)
next
  case False
  define q :: rat where "q = of_int m * 2 powi j"
  have mpos: "0 < rat_of_int m" using m(1) False by simp
  have qpos: "0 < q" unfolding q_def using mpos by simp
  define u where "u = max (ilog2 q) (- 1022) - 52"
  have ulp: "ulp q = 2 powi u" by (simp add: ulp_def u_def)
  have "rat_of_int m < of_int (2 ^ 53)" using m(2) by (simp only: of_int_less_iff)
  hence "rat_of_int m < 2 powi 53" by simp
  hence "q < 2 powi 53 * 2 powi j" unfolding q_def by (intro mult_strict_right_mono) simp_all
  also have "\<dots> = 2 powi (53 + j)" using power_int_add[of "2::rat" 53 j] by simp
  finally have "2 powi (ilog2 q) < (2::rat) powi (53 + j)"
    using ilog2_bounds(1)[OF qpos] by linarith
  hence "ilog2 q < 53 + j" by (rule powi_less_imp_less)
  hence uj: "u \<le> j" using j by (simp add: u_def)
  define n where "n = m * 2 ^ nat (j - u)"
  have "2 powi j = (2::rat) powi (j - u) * 2 powi u"
    using power_int_add[of "2::rat" "j - u" u] by simp
  also have "(2::rat) powi (j - u) = 2 ^ nat (j - u)" using uj by (simp add: power_int_nonneg_exp)
  finally have qn: "q = of_int n * 2 powi u" by (simp add: q_def n_def)
  have "q / ulp q = q / 2 powi u" by (simp only: ulp)
  also have "\<dots> = of_int n * 2 powi u / 2 powi u" by (simp only: qn)
  also have "\<dots> = of_int n" by simp
  finally have "q / ulp q = of_int n" .
  hence "roundTiesToEven (q / ulp q) = n" by (simp only: roundTiesToEven_of_int)
  hence "round_double q = of_int n * 2 powi u" using qpos by (simp add: round_double_def ulp)
  thus ?thesis using qn by (simp add: q_def)
qed

text \<open>In particular the integers below \<open>2 ^ 53\<close> are doubles.\<close>

lemma round_double_of_int:
  assumes "0 \<le> k" "k < 2 ^ 53"
  shows "round_double (of_int k) = of_int k"
  using round_double_exact[OF assms, of 0] by simp

text \<open>The values \<open>k / 2 ^ 53\<close> that engines draw for \<^verbatim>\<open>Math.random()\<close> are in its range.\<close>

lemma unit_double_grid:
  assumes "0 \<le> k" "k < 2 ^ 53"
  shows "unit_double (of_int k / 2 ^ 53)"
proof -
  have e: "rat_of_int k / 2 ^ 53 = of_int k * 2 powi (- 53)" by (simp add: power_int_minus_divide)
  have "round_double (of_int k * 2 powi (- 53)) = of_int k * 2 powi (- 53)"
    using assms by (intro round_double_exact) simp_all
  moreover have "rat_of_int k < of_int (2 ^ 53)" using assms(2) by (simp only: of_int_less_iff)
  hence "rat_of_int k / 2 ^ 53 < 1" by simp
  moreover have "0 \<le> rat_of_int k / 2 ^ 53" using assms(1) by simp
  ultimately show ?thesis by (simp add: unit_double_def e)
qed

text \<open>The test for overflow in \<open>to_number\<close>: an exponent of 1024 or more is \<open>2 ^ 1024\<close> or more.\<close>

lemma overflow_threshold:
  assumes "0 < d"
  shows "1024 \<le> ilog2 d \<longleftrightarrow> 2 ^ 1024 \<le> d"
proof
  assume "1024 \<le> ilog2 d"
  hence "(2::rat) powi 1024 \<le> 2 powi (ilog2 d)" by (intro power_int_increasing) simp_all
  also have "\<dots> \<le> d" using ilog2_bounds(1)[OF assms] .
  finally show "2 ^ 1024 \<le> d" by simp
next
  assume "2 ^ 1024 \<le> d"
  hence "(2::rat) powi 1024 \<le> d" by simp
  hence "(2::rat) powi 1024 < 2 powi (ilog2 d + 1)" using ilog2_bounds(2)[OF assms] by linarith
  hence "1024 < ilog2 d + 1" by (rule powi_less_imp_less)
  thus "1024 \<le> ilog2 d" by simp
qed

subsection \<open>\<^verbatim>\<open>generateRandomValue\<close>\<close>

lemma getRandomChar_in_set:
  fixes L :: nat
  assumes "unit_double r" "2 ^ L < length cs" "length cs < 2 ^ (L + 1)" "L \<le> 52"
  shows "\<exists>c. c \<in> set cs \<and> getRandomChar cs r = [c]"
proof -
  define x where "x = round_double (r * of_nat (length cs))"
  have r: "0 \<le> r" "r < 1" "round_double r = r" using assms(1) by (simp_all add: unit_double_def)
  have "0 \<le> r * of_nat (length cs)" using r(1) by simp
  hence "0 \<le> x" unfolding x_def by (rule round_double_nonneg)
  hence lo: "0 \<le> \<lfloor>x\<rfloor>" by simp
  have "x < of_nat (length cs)"
    unfolding x_def using r assms(2-4) by (rule round_double_product_less)
  hence "x < of_int (int (length cs))" by simp
  hence hi: "\<lfloor>x\<rfloor> < int (length cs)" by (simp only: floor_less_iff)
  have "getRandomChar cs r = [cs ! nat \<lfloor>x\<rfloor>]"
    using lo hi by (simp add: getRandomChar_def charAt_def x_def)
  moreover have "cs ! nat \<lfloor>x\<rfloor> \<in> set cs" using lo hi by (intro nth_mem) linarith
  ultimately show ?thesis by blast
qed

lemma getRandomChar_empty: "getRandomChar [] r = []"
  by (simp add: getRandomChar_def charAt_def)

text \<open>
  The counter of the loop: \<^verbatim>\<open>i++\<close> is exact up to \<open>2 ^ 53\<close> and leaves \<open>2 ^ 53\<close> where it is
  (\<open>2 ^ 53 + 1\<close> is halfway between two doubles and goes to the even one). After \<open>k\<close> rounds
  the counter is the smaller of \<open>k\<close> and \<open>2 ^ 53\<close>.
\<close>

lemma counter_stall: "round_double (2 ^ 53 + 1) = 2 ^ 53"
  by code_simp

lemma counter_next:
  "round_double (of_nat (min k (2 ^ 53)) + 1) = of_nat (min (Suc k) (2 ^ 53))"
proof (cases "k < 2 ^ 53")
  case True
  have "round_double (of_int (int k + 1)) = of_int (int k + 1)"
  proof (cases "int k + 1 < 2 ^ 53")
    case True
    thus ?thesis by (intro round_double_of_int) simp_all
  next
    case False
    hence "int k + 1 = 2 ^ 53" using \<open>k < 2 ^ 53\<close> by (simp add: nat_less_iff)
    thus ?thesis using round_double_exact[of 1 53] by simp
  qed
  hence "round_double (of_nat k + 1) = of_nat (Suc k)" by (simp add: add.commute)
  moreover have "min k (2 ^ 53) = k" "min (Suc k) (2 ^ 53) = Suc k" using True by simp_all
  ultimately show ?thesis by simp
next
  case False
  hence "min k (2 ^ 53) = 2 ^ 53" "min (Suc k) (2 ^ 53) = 2 ^ 53" by simp_all
  thus ?thesis using counter_stall by simp
qed

text \<open>\<^verbatim>\<open>i < x\<close> carries over to a smaller \<open>i\<close>.\<close>

lemma less_number_mono:
  assumes "less_number a x" "b \<le> a"
  shows "less_number b x"
  using assms by (cases x) (auto simp: less_number_def)

text \<open>Below the two bounds the loop runs to the end and appends a character in every round.\<close>

lemma random_loop_returns:
  assumes c: "\<And>j. \<exists>c. c \<in> set cs \<and> getRandomChar cs (rnd j) = [c]"
      and n: "int n \<le> max_length" "n \<le> 2 ^ 53"
      and k: "k \<le> n" "length rv = k" "set rv \<subseteq> set cs"
  shows "\<exists>s. random_loop max_length rnd cs (Finite False (of_nat n)) (of_nat k) k rv = Some (Inr s)
             \<and> length s = n \<and> set s \<subseteq> set cs"
  using k
proof (induction "n - k" arbitrary: k rv)
  case 0
  hence "k = n" by simp
  hence "\<not> less_number (of_nat k) (Finite False (of_nat n))" by (simp add: less_number_def)
  hence "random_loop max_length rnd cs (Finite False (of_nat n)) (of_nat k) k rv = Some (Inr rv)"
    by (subst random_loop.simps) simp
  thus ?case using 0 \<open>k = n\<close> by simp
next
  case (Suc d)
  hence lt: "k < n" by simp
  obtain c where c: "c \<in> set cs" "getRandomChar cs (rnd k) = [c]" using assms(1) by blast
  have l: "less_number (of_nat k) (Finite False (of_nat n))" using lt by (simp add: less_number_def)
  have m: "\<not> max_length < int (length (rv @ [c]))" using Suc.prems(2) lt n(1) by simp
  have "k < 2 ^ 53" using lt n(2) by simp
  hence "min k (2 ^ 53) = k" "min (Suc k) (2 ^ 53) = Suc k" by simp_all
  hence r: "round_double (of_nat k + 1) = of_nat (Suc k)" using counter_next[of k] by simp
  have step: "random_loop max_length rnd cs (Finite False (of_nat n)) (of_nat k) k rv
      = random_loop max_length rnd cs (Finite False (of_nat n)) (of_nat (Suc k)) (Suc k) (rv @ [c])"
    using l m by (subst random_loop.simps) (simp only: c(2) r if_True if_False)
  have "\<exists>s. random_loop max_length rnd cs (Finite False (of_nat n)) (of_nat (Suc k)) (Suc k) (rv @ [c]) = Some (Inr s)
             \<and> length s = n \<and> set s \<subseteq> set cs"
    using Suc.hyps(2) lt Suc.prems c(1) by (intro Suc.hyps(1)) simp_all
  thus ?case by (simp only: step)
qed

text \<open>
  When the counter stays below \<^verbatim>\<open>length\<close> for as long as the string may grow, the string
  grows until \<^verbatim>\<open>+=\<close> throws.
\<close>

lemma random_loop_raises:
  assumes c: "\<And>j. \<exists>c. c \<in> set cs \<and> getRandomChar cs (rnd j) = [c]"
      and l: "\<And>j. int j \<le> max_length \<Longrightarrow> less_number (of_nat (min j (2 ^ 53))) len"
      and k: "int k \<le> max_length" "length rv = k"
  shows "random_loop max_length rnd cs len (of_nat (min k (2 ^ 53))) k rv = Some (Inl RangeError)"
  using k
proof (induction "nat (max_length - int k)" arbitrary: k rv)
  case 0
  obtain c where c: "getRandomChar cs (rnd k) = [c]" using assms(1) by blast
  have m: "max_length < int (length (rv @ [c]))" using 0 by simp
  show ?case using l[OF 0(2)] m by (subst random_loop.simps) (simp only: c if_True)
next
  case (Suc d)
  obtain c where c: "getRandomChar cs (rnd k) = [c]" using assms(1) by blast
  have m: "\<not> max_length < int (length (rv @ [c]))" using Suc by simp
  have step: "random_loop max_length rnd cs len (of_nat (min k (2 ^ 53))) k rv
      = random_loop max_length rnd cs len (of_nat (min (Suc k) (2 ^ 53))) (Suc k) (rv @ [c])"
    using l[OF Suc.prems(1)] m
    by (subst random_loop.simps) (simp only: c counter_next if_True if_False)
  have "random_loop max_length rnd cs len (of_nat (min (Suc k) (2 ^ 53))) (Suc k) (rv @ [c])
      = Some (Inl RangeError)"
    using Suc by (intro Suc.hyps(1)) simp_all
  thus ?case by (simp only: step)
qed

text \<open>With no character to draw from, the string stays empty.\<close>

lemma random_loop_empty_returns:
  assumes "0 \<le> max_length" "\<not> less_number (2 ^ 53) len" "j \<le> 2 ^ 53"
  shows "random_loop max_length rnd [] len (of_nat j) k [] = Some (Inr [])"
  using assms(3)
proof (induction "2 ^ 53 - j" arbitrary: j k)
  case 0
  hence "j = 2 ^ 53" by simp
  hence "\<not> less_number (of_nat j) len" using assms(2) by simp
  thus ?case by (subst random_loop.simps) simp
next
  case (Suc d)
  show ?case
  proof (cases "less_number (of_nat j) len")
    case False
    thus ?thesis by (subst random_loop.simps) simp
  next
    case True
    have "j < 2 ^ 53" using Suc by simp
    hence "min j (2 ^ 53) = j" "min (Suc j) (2 ^ 53) = Suc j" by simp_all
    hence r: "round_double (of_nat j + 1) = of_nat (Suc j)" using counter_next[of j] by simp
    have m: "\<not> max_length < int (length ([] @ ([]::string)))" using assms(1) by simp
    have "random_loop max_length rnd [] len (of_nat j) k []
        = random_loop max_length rnd [] len (of_nat (Suc j)) (Suc k) ([] @ [])"
      using True m by (subst random_loop.simps) (simp only: getRandomChar_empty r if_True if_False)
    moreover have "random_loop max_length rnd [] len (of_nat (Suc j)) (Suc k) [] = Some (Inr [])"
      using Suc \<open>j < 2 ^ 53\<close> by (intro Suc.hyps(1)) simp_all
    ultimately show ?thesis by simp
  qed
qed

text \<open>
  With no character to draw from and a \<^verbatim>\<open>length\<close> above \<open>2 ^ 53\<close>, the counter never
  reaches \<^verbatim>\<open>length\<close> and nothing is thrown: the loop does not end.
\<close>

lemma random_loop_empty_runs:
  assumes "0 \<le> max_length" "less_number (2 ^ 53) len"
  shows "random_loop max_length rnd [] len (of_nat (min j (2 ^ 53))) k [] = None"
proof (rule ccontr)
  define P where "P = (\<lambda>(ml::int) (r::nat \<Rightarrow> rat) (cs::string) ln (i::rat) (q::nat) (rv::string)
      (z::error + string).
    \<not> (0 \<le> ml \<and> less_number (2 ^ 53) ln \<and> cs = [] \<and> rv = [] \<and> (\<exists>j. i = of_nat (min j (2 ^ 53)))))"
  assume "random_loop max_length rnd [] len (of_nat (min j (2 ^ 53))) k [] \<noteq> None"
  then obtain y where y: "random_loop max_length rnd [] len (of_nat (min j (2 ^ 53))) k [] = Some y"
    by blast
  have "P max_length rnd [] len (of_nat (min j (2 ^ 53))) k [] y"
  proof (rule random_loop.raw_induct[where P = P, OF _ y], goal_cases)
    case (1 f ml r cs ln i q rv z)
    show ?case unfolding P_def
    proof
      assume a: "0 \<le> ml \<and> less_number (2 ^ 53) ln \<and> cs = [] \<and> rv = [] \<and> (\<exists>j. i = of_nat (min j (2 ^ 53)))"
      then obtain j where i: "i = of_nat (min j (2 ^ 53))" by blast
      have "rat_of_nat (min j (2 ^ 53)) \<le> of_nat (2 ^ 53)" by (simp only: of_nat_le_iff)
      hence "i \<le> 2 ^ 53" unfolding i by simp
      hence l: "less_number i ln" using a less_number_mono by blast
      have m: "\<not> ml < int (length ([] @ ([]::string)))" using a by simp
      have cs: "cs = []" and rv: "rv = []" using a by simp_all
      have "f ml r [] ln (of_nat (min (Suc j) (2 ^ 53))) (Suc q) ([] @ []) = Some z"
        using 1(2) l m unfolding cs rv
        by (simp only: getRandomChar_empty i counter_next if_True if_False)
      hence "f ml r [] ln (of_nat (min (Suc j) (2 ^ 53))) (Suc q) [] = Some z" by simp
      from 1(1)[OF this] a show False unfolding P_def by blast
    qed
  qed
  thus False using assms unfolding P_def by blast
qed

text \<open>Each of the three character sets of the source yields one of its characters.\<close>

lemma getRandomChar_numeric:
  assumes "unit_double r"
  shows "\<exists>c. c \<in> set ''0123456789'' \<and> getRandomChar ''0123456789'' r = [c]"
  using assms by (rule getRandomChar_in_set[where L = 3]) simp_all

lemma getRandomChar_alphanumeric:
  assumes "unit_double r"
  shows "\<exists>c. c \<in> set ''ABCDEFGHIJKLMNOPQRSTUVWXYZabcdefghijklmnopqrstuvwxyz0123456789''
    \<and> getRandomChar ''ABCDEFGHIJKLMNOPQRSTUVWXYZabcdefghijklmnopqrstuvwxyz0123456789'' r = [c]"
  using assms by (rule getRandomChar_in_set[where L = 5]) simp_all

lemma getRandomChar_characters:
  assumes "unit_double r"
  shows "\<exists>c. c \<in> set ''!@#$%^&*()_-+=<>?'' \<and> getRandomChar ''!@#$%^&*()_-+=<>?'' r = [c]"
  using assms by (rule getRandomChar_in_set[where L = 4]) simp_all

text \<open>The character set that \<^verbatim>\<open>type\<close> selects.\<close>

lemma generateRandomValue_numeric:
  "generateRandomValue max_length rnd len ''numeric''
   = random_loop max_length rnd ''0123456789'' len 0 0 []"
  by (simp add: generateRandomValue_def)

lemma generateRandomValue_alphanumeric:
  "generateRandomValue max_length rnd len ''alphanumeric''
   = random_loop max_length rnd ''ABCDEFGHIJKLMNOPQRSTUVWXYZabcdefghijklmnopqrstuvwxyz0123456789'' len 0 0 []"
  by (simp add: generateRandomValue_def)

lemma generateRandomValue_characters:
  "generateRandomValue max_length rnd len ''characters''
   = random_loop max_length rnd ''!@#$%^&*()_-+=<>?'' len 0 0 []"
  by (simp add: generateRandomValue_def)

lemma generateRandomValue_other:
  assumes "type \<noteq> ''numeric''" "type \<noteq> ''alphanumeric''" "type \<noteq> ''characters''"
  shows "generateRandomValue max_length rnd len type = random_loop max_length rnd [] len 0 0 []"
  using assms by (simp add: generateRandomValue_def)

text \<open>
  A length above the greatest length of a string, or above \<open>2 ^ 53\<close>, where the counter
  stays: the call throws, whatever the engine allows.
\<close>

lemma random_loop_too_long:
  assumes c: "\<And>j. \<exists>c. c \<in> set cs \<and> getRandomChar cs (rnd j) = [c]"
      and m: "0 \<le> max_length"
      and l: "less_number (of_int (min max_length (2 ^ 53))) len"
  shows "random_loop max_length rnd cs len 0 0 [] = Some (Inl RangeError)"
proof -
  have "less_number (of_nat (min j (2 ^ 53))) len" if "int j \<le> max_length" for j
  proof -
    have "int (min j (2 ^ 53)) \<le> min max_length (2 ^ 53)" using that by simp
    hence "rat_of_int (int (min j (2 ^ 53))) \<le> of_int (min max_length (2 ^ 53))"
      by (simp only: of_int_le_iff)
    hence "rat_of_nat (min j (2 ^ 53)) \<le> of_int (min max_length (2 ^ 53))" by simp
    thus ?thesis using l less_number_mono by blast
  qed
  hence "random_loop max_length rnd cs len (of_nat (min 0 (2 ^ 53))) 0 [] = Some (Inl RangeError)"
    using c m by (intro random_loop_raises) simp_all
  thus ?thesis by simp
qed

lemma generateRandomValue_too_long:
  assumes "\<And>k. unit_double (rnd k)" "0 \<le> max_length"
      and "less_number (of_int (min max_length (2 ^ 53))) len"
  shows "generateRandomValue max_length rnd len ''numeric'' = Some (Inl RangeError)"
    and "generateRandomValue max_length rnd len ''alphanumeric'' = Some (Inl RangeError)"
    and "generateRandomValue max_length rnd len ''characters'' = Some (Inl RangeError)"
proof -
  show "generateRandomValue max_length rnd len ''numeric'' = Some (Inl RangeError)"
    unfolding generateRandomValue_numeric
    using getRandomChar_numeric[OF assms(1)] assms(2,3) by (rule random_loop_too_long)
  show "generateRandomValue max_length rnd len ''alphanumeric'' = Some (Inl RangeError)"
    unfolding generateRandomValue_alphanumeric
    using getRandomChar_alphanumeric[OF assms(1)] assms(2,3) by (rule random_loop_too_long)
  show "generateRandomValue max_length rnd len ''characters'' = Some (Inl RangeError)"
    unfolding generateRandomValue_characters
    using getRandomChar_characters[OF assms(1)] assms(2,3) by (rule random_loop_too_long)
qed

text \<open>Some calls, evaluated.\<close>

lemma unit_double_max: "unit_double (9007199254740991 / 9007199254740992)"
  unfolding unit_double_def by code_simp

lemma unit_double_half: "unit_double (1 / 2)"
  unfolding unit_double_def by code_simp

lemma generateRandomValue_max_example:
  "generateRandomValue 536870888 (always (9007199254740991 / 9007199254740992)) (Finite False 3)
     ''numeric'' = Some (Inr ''999'')"
  by code_simp

lemma generateRandomValue_examples:
  "generateRandomValue 536870888 (always (1 / 2)) (Finite False (5 / 2)) ''alphanumeric'' = Some (Inr ''fff'')"
  "generateRandomValue 536870888 (always (1 / 2)) (Finite True 3) ''numeric'' = Some (Inr '''')"
  "generateRandomValue 536870888 (always (1 / 2)) NaN ''characters'' = Some (Inr '''')"
  "generateRandomValue 2 (always 0) (Finite False 3) ''numeric'' = Some (Inl RangeError)"
  by code_simp+

text \<open>One character more than V8 allows in a string.\<close>

lemma generateRandomValue_too_long_V8:
  "generateRandomValue 536870888 (always (1 / 2)) (Finite False 536870889) ''numeric''
   = Some (Inl RangeError)"
proof -
  have "\<And>k. unit_double (always (1 / 2) k)" by (simp only: always_def unit_double_half)
  moreover have "less_number (of_int (min 536870888 (2 ^ 53))) (Finite False 536870889)"
    by (simp add: less_number_def)
  ultimately show ?thesis by (intro generateRandomValue_too_long) simp_all
qed

text \<open>
  C2, as amended: for every natural number \<open>n\<close> that is at most the greatest length of a
  string and at most \<open>2 ^ 53\<close>, whatever doubles in the range of \<^verbatim>\<open>Math.random()\<close> the
  calls return, \<^verbatim>\<open>generateRandomValue(n, "numeric")\<close> returns a string of length \<open>n\<close> over
  the digits, \<^verbatim>\<open>generateRandomValue(n, "alphanumeric")\<close> a string of length \<open>n\<close> over the
  upper-case letters, the lower-case letters and the digits, and
  \<^verbatim>\<open>generateRandomValue(n, "characters")\<close> a string of length \<open>n\<close> over the special
  characters of the source. The index \<^verbatim>\<open>Math.floor(Math.random() * characters.length)\<close>
  is computed on doubles: the rounded product stays below the length, so \<^verbatim>\<open>charAt\<close> never
  yields the empty string. The call returns: the result is \<open>Some (Inr s)\<close>.
\<close>

theorem generateRandomValue_length_and_charset:
  assumes "\<And>k. unit_double (rnd k)" "int n \<le> max_length" "n \<le> 2 ^ 53"
  shows "(\<exists>s. generateRandomValue max_length rnd (Finite False (of_nat n)) ''numeric'' = Some (Inr s)
            \<and> length s = n \<and> set s \<subseteq> set ''0123456789'')
       \<and> (\<exists>s. generateRandomValue max_length rnd (Finite False (of_nat n)) ''alphanumeric'' = Some (Inr s)
            \<and> length s = n
            \<and> set s \<subseteq> set ''ABCDEFGHIJKLMNOPQRSTUVWXYZabcdefghijklmnopqrstuvwxyz0123456789'')
       \<and> (\<exists>s. generateRandomValue max_length rnd (Finite False (of_nat n)) ''characters'' = Some (Inr s)
            \<and> length s = n \<and> set s \<subseteq> set ''!@#$%^&*()_-+=<>?'')"
proof (intro conjI)
  have "\<exists>s. random_loop max_length rnd ''0123456789'' (Finite False (of_nat n)) (of_nat 0) 0 []
          = Some (Inr s) \<and> length s = n \<and> set s \<subseteq> set ''0123456789''"
    using getRandomChar_numeric[OF assms(1)] assms(2,3) by (rule random_loop_returns) simp_all
  thus "\<exists>s. generateRandomValue max_length rnd (Finite False (of_nat n)) ''numeric'' = Some (Inr s)
            \<and> length s = n \<and> set s \<subseteq> set ''0123456789''"
    unfolding generateRandomValue_numeric by simp
next
  have "\<exists>s. random_loop max_length rnd ''ABCDEFGHIJKLMNOPQRSTUVWXYZabcdefghijklmnopqrstuvwxyz0123456789''
            (Finite False (of_nat n)) (of_nat 0) 0 []
          = Some (Inr s) \<and> length s = n
          \<and> set s \<subseteq> set ''ABCDEFGHIJKLMNOPQRSTUVWXYZabcdefghijklmnopqrstuvwxyz0123456789''"
    using getRandomChar_alphanumeric[OF assms(1)] assms(2,3) by (rule random_loop_returns) simp_all
  thus "\<exists>s. generateRandomValue max_length rnd (Finite False (of_nat n)) ''alphanumeric'' = Some (Inr s)
            \<and> length s = n
            \<and> set s \<subseteq> set ''ABCDEFGHIJKLMNOPQRSTUVWXYZabcdefghijklmnopqrstuvwxyz0123456789''"
    unfolding generateRandomValue_alphanumeric by simp
next
  have "\<exists>s. random_loop max_length rnd ''!@#$%^&*()_-+=<>?'' (Finite False (of_nat n)) (of_nat 0) 0 []
          = Some (Inr s) \<and> length s = n \<and> set s \<subseteq> set ''!@#$%^&*()_-+=<>?''"
    using getRandomChar_characters[OF assms(1)] assms(2,3) by (rule random_loop_returns) simp_all
  thus "\<exists>s. generateRandomValue max_length rnd (Finite False (of_nat n)) ''characters'' = Some (Inr s)
            \<and> length s = n \<and> set s \<subseteq> set ''!@#$%^&*()_-+=<>?''"
    unfolding generateRandomValue_characters by simp
qed

text \<open>
  The statement at the largest double below 1, three rounds, with the greatest length of
  a string in V8: every round draws the last digit.
\<close>

theorem generateRandomValue_length_and_charset_witness:
  "unit_double (9007199254740991 / 9007199254740992)
   \<and> int 3 \<le> 536870888 \<and> (3::nat) \<le> 2 ^ 53
   \<and> generateRandomValue 536870888 (always (9007199254740991 / 9007199254740992)) (Finite False 3)
        ''numeric'' = Some (Inr ''999'')
   \<and> (\<exists>s. generateRandomValue 536870888 (always (9007199254740991 / 9007199254740992))
              (Finite False 3) ''alphanumeric'' = Some (Inr s) \<and> length s = 3
          \<and> set s \<subseteq> set ''ABCDEFGHIJKLMNOPQRSTUVWXYZabcdefghijklmnopqrstuvwxyz0123456789'')
   \<and> (\<exists>s. generateRandomValue 536870888 (always (9007199254740991 / 9007199254740992))
              (Finite False 3) ''characters'' = Some (Inr s) \<and> length s = 3
          \<and> set s \<subseteq> set ''!@#$%^&*()_-+=<>?'')"
proof -
  have h: "\<And>k. unit_double (always (9007199254740991 / 9007199254740992) k)"
    by (simp only: always_def unit_double_max)
  have b: "int 3 \<le> 536870888" "(3::nat) \<le> 2 ^ 53" by simp_all
  have n: "rat_of_nat 3 = 3" by simp
  from generateRandomValue_length_and_charset[where rnd = "always (9007199254740991 / 9007199254740992)"
      and n = 3 and max_length = 536870888, OF h b, unfolded n]
    generateRandomValue_max_example unit_double_max b
  show ?thesis by blast
qed

text \<open>
  C2 as it is stated, for every natural number, fails: \<open>2 ^ 53 + 2\<close> is a Number, and
  with the greatest length of a string that ECMAScript allows, \<open>2 ^ 53 - 1\<close>,
  \<^verbatim>\<open>generateRandomValue(9007199254740994, "numeric")\<close> throws a \<^verbatim>\<open>RangeError\<close> in round
  \<open>2 ^ 53\<close> and returns no string. By \<open>generateRandomValue_too_long\<close> it throws whatever the
  greatest length of a string is.
\<close>

theorem generateRandomValue_length_counterexample:
  "generateRandomValue 9007199254740991 (always (1 / 2)) (Finite False 9007199254740994) ''numeric''
   = Some (Inl RangeError)"
proof -
  have "\<And>k. unit_double (always (1 / 2) k)" by (simp only: always_def unit_double_half)
  moreover have "less_number (of_int (min 9007199254740991 (2 ^ 53))) (Finite False 9007199254740994)"
    by (simp add: less_number_def)
  ultimately show ?thesis by (intro generateRandomValue_too_long) simp_all
qed

text \<open>
  Another \<^verbatim>\<open>type\<close>: the character set is empty and every round appends \<^verbatim>\<open>"".charAt(0)\<close>,
  the empty string. The loop still counts up to \<^verbatim>\<open>length\<close>.
\<close>

lemma generateRandomValue_other_returns:
  assumes "type \<noteq> ''numeric''" "type \<noteq> ''alphanumeric''" "type \<noteq> ''characters''"
      and "0 \<le> max_length" "\<not> less_number (2 ^ 53) len"
  shows "generateRandomValue max_length rnd len type = Some (Inr '''')"
proof -
  have "random_loop max_length rnd [] len (of_nat 0) 0 [] = Some (Inr [])"
    using assms(4,5) by (rule random_loop_empty_returns) simp
  thus ?thesis unfolding generateRandomValue_other[OF assms(1-3)] by simp
qed

lemma generateRandomValue_other_runs:
  assumes "type \<noteq> ''numeric''" "type \<noteq> ''alphanumeric''" "type \<noteq> ''characters''"
      and "0 \<le> max_length" "less_number (2 ^ 53) len"
  shows "generateRandomValue max_length rnd len type = None"
proof -
  have "random_loop max_length rnd [] len (of_nat (min 0 (2 ^ 53))) 0 [] = None"
    using assms(4,5) by (rule random_loop_empty_runs)
  thus ?thesis unfolding generateRandomValue_other[OF assms(1-3)] by simp
qed

text \<open>
  C3, as amended: for every kind other than \<^verbatim>\<open>"numeric"\<close>, \<^verbatim>\<open>"alphanumeric"\<close> and
  \<^verbatim>\<open>"characters"\<close>, and every \<^verbatim>\<open>length\<close> that is not greater than \<open>2 ^ 53\<close> (a negative one,
  one with a fraction and \<open>NaN\<close> too), \<^verbatim>\<open>generateRandomValue\<close> returns the empty string and
  raises nothing; for a \<^verbatim>\<open>length\<close> greater than \<open>2 ^ 53\<close> (\<open>Infinity\<close> too) the call does not
  return, and raises nothing either. No assumption on what \<^verbatim>\<open>Math.random()\<close> returns.
\<close>

theorem generateRandomValue_unknown_type:
  assumes "type \<noteq> ''numeric''" "type \<noteq> ''alphanumeric''" "type \<noteq> ''characters''"
      and "0 \<le> max_length"
  shows "generateRandomValue max_length rnd len type
         = (if less_number (2 ^ 53) len then None else Some (Inr ''''))"
  using generateRandomValue_other_returns[OF assms] generateRandomValue_other_runs[OF assms]
  by (cases "less_number (2 ^ 53) len") simp_all

text \<open>The statement at the lengths 5, \<open>2 ^ 53\<close>, \<open>NaN\<close> and \<open>Infinity\<close>.\<close>

theorem generateRandomValue_unknown_type_witness:
  "generateRandomValue 536870888 (always (1 / 2)) (Finite False 5) ''hex'' = Some (Inr '''')
   \<and> generateRandomValue 536870888 (always (1 / 2)) (Finite False 9007199254740992) ''hex'' = Some (Inr '''')
   \<and> generateRandomValue 536870888 (always (1 / 2)) NaN ''hex'' = Some (Inr '''')
   \<and> generateRandomValue 536870888 (always (1 / 2)) (Infinity False) ''hex'' = None"
  using generateRandomValue_unknown_type[of "''hex''" 536870888 "always (1 / 2)" "Finite False 5"]
    generateRandomValue_unknown_type[of "''hex''" 536870888 "always (1 / 2)" "Finite False 9007199254740992"]
    generateRandomValue_unknown_type[of "''hex''" 536870888 "always (1 / 2)" NaN]
    generateRandomValue_unknown_type[of "''hex''" 536870888 "always (1 / 2)" "Infinity False"]
  by (simp add: less_number_def)

text \<open>
  C3 as it is stated, for every length, fails: at the length \<open>2 ^ 53 + 2\<close> the counter
  stays at \<open>2 ^ 53\<close>, and \<^verbatim>\<open>generateRandomValue(9007199254740994, "hex")\<close> does not return.
\<close>

theorem generateRandomValue_unknown_type_counterexample:
  "generateRandomValue 9007199254740991 (always (1 / 2)) (Finite False 9007199254740994) ''hex'' = None"
  by (rule generateRandomValue_other_runs) (simp_all add: less_number_def)

subsection \<open>\<^verbatim>\<open>getTextAndAcceptAlert\<close>\<close>

text \<open>
  C1: every call of \<^verbatim>\<open>getTextAndAcceptAlert\<close> returns the empty string, whatever the page
  handle, the state of the browser and the store are: the call registers its listener
  (the second conjunct: the browser after the call is the browser with the listener
  subscribed) and returns the initial value of \<^verbatim>\<open>alertText\<close>; no dialog event is awaited.
\<close>

theorem getTextAndAcceptAlert_returns_empty:
  "fst (getTextAndAcceptAlert pg (vars, w)) = ''''
   \<and> snd (snd (getTextAndAcceptAlert pg (vars, w)))
       = Page_on_dialog pg (CaptureAndAccept (var_fresh vars)) w"
  by (simp add: getTextAndAcceptAlert_def Let_def)

text \<open>
  A dialog that opens after the call does reach the listener, which stores the message in
  the variable and accepts the dialog; the string that the call returned is the empty one
  all the same.
\<close>

lemma getTextAndAcceptAlert_later_dialog:
  assumes "getTextAndAcceptAlert playwright (vars, b) = (r, s)"
    and "dialog_listeners b = []"
    and "dialog_opens message s = ((vars', d), b')"
  shows "r = '''' \<and> var_value vars' (var_fresh vars) = message \<and> dialog_accepted d"
  using assms
  by (auto simp: getTextAndAcceptAlert_def Let_def playwright_def browser_on_dialog_def
      dialog_opens_def)

text \<open>
  On the sample page, with a store whose variables hold \<^verbatim>\<open>old\<close>: the call returns the empty
  string, and the dialog \<^verbatim>\<open>Saved\<close> that opens afterwards leaves its message in the variable.
\<close>

theorem getTextAndAcceptAlert_returns_empty_witness:
  "fst (getTextAndAcceptAlert playwright (\<lparr>var_value = (\<lambda>a. ''old''), var_fresh = 0\<rparr>, sample_page))
     = ''''
   \<and> var_value (fst (fst (dialog_opens ''Saved''
         (snd (getTextAndAcceptAlert playwright
            (\<lparr>var_value = (\<lambda>a. ''old''), var_fresh = 0\<rparr>, sample_page)))))) 0 = ''Saved''"
proof -
  obtain r s where c: "getTextAndAcceptAlert playwright
      (\<lparr>var_value = (\<lambda>a. ''old''), var_fresh = 0\<rparr>, sample_page) = (r, s)"
    by (cases "getTextAndAcceptAlert playwright
      (\<lparr>var_value = (\<lambda>a. ''old''), var_fresh = 0\<rparr>, sample_page)")
  obtain vars' d b' where o: "dialog_opens ''Saved'' s = ((vars', d), b')"
    by (cases "dialog_opens ''Saved'' s") auto
  have l: "dialog_listeners sample_page = []" by (simp add: sample_page_def)
  from getTextAndAcceptAlert_later_dialog[OF c l o]
  have "var_value vars' 0 = ''Saved''" by simp
  moreover from getTextAndAcceptAlert_returns_empty[of playwright
     "\<lparr>var_value = (\<lambda>a. ''old''), var_fresh = 0\<rparr>" sample_page]
  have "r = ''''" using c by simp
  ultimately show ?thesis using c o by simp
qed

subsection \<open>\<^verbatim>\<open>getCurrentDate\<close>, \<^verbatim>\<open>getCurrentTime\<close>\<close>

text \<open>
  C6: \<^verbatim>\<open>getCurrentDate\<close> and \<^verbatim>\<open>getCurrentTime\<close> ignore their \<^verbatim>\<open>format\<close> parameter: on one
  platform at one reading of the clock, two calls with the formats \<open>f1\<close> and \<open>f2\<close> return
  the same string, which is the \<^verbatim>\<open>en-US\<close> rendering of the clock in the medium date style,
  respectively the medium time style.
\<close>

theorem getCurrent_ignores_format:
  "getCurrentDate pf f1 = getCurrentDate pf f2
   \<and> getCurrentTime pf f1 = getCurrentTime pf f2
   \<and> getCurrentDate pf f1 = format_dateStyle_medium pf (clock pf)
   \<and> getCurrentTime pf f1 = format_timeStyle_medium pf (clock pf)"
  by (simp add: getCurrentDate_def getCurrentTime_def)

lemma getCurrentDate_example: "getCurrentDate reference_platform ''MM/DD/YYYY'' = ''Mar 15, 2024''"
  by code_simp

theorem getCurrent_ignores_format_witness:
  "getCurrentDate reference_platform ''MM/DD/YYYY'' = ''Mar 15, 2024''
   \<and> getCurrentDate reference_platform ''YYYY-MM-DD'' = ''Mar 15, 2024''
   \<and> getCurrentTime reference_platform ''HH:mm:ss'' = getCurrentTime reference_platform ''mm''"
  using getCurrent_ignores_format[of reference_platform "''MM/DD/YYYY''" "''YYYY-MM-DD''"]
    getCurrent_ignores_format[of reference_platform "''HH:mm:ss''" "''mm''"]
    getCurrentDate_example
  by simp

subsection \<open>\<^verbatim>\<open>compareText\<close>\<close>

text \<open>
  C8: \<^verbatim>\<open>compareText(locator1, locator2)\<close> returns the boolean \<open>b\<close> exactly when both calls
  of \<^verbatim>\<open>getText\<close> return, the second in the state the first leaves, and \<open>b\<close> says whether
  the two texts are equal: it returns true if and only if the texts are the same string
  (or both \<^verbatim>\<open>null\<close>), with no normalisation, and false whenever one text is empty and the
  other is not.
\<close>

theorem compareText_iff:
  "compareText pg locator1 locator2 w = (Inr b, w2) \<longleftrightarrow>
     (\<exists>text1 text2 w1. getText pg locator1 w = (Inr text1, w1)
        \<and> getText pg locator2 w1 = (Inr text2, w2) \<and> b = (text1 = text2))"
  by (auto simp: compareText_def split: prod.splits sum.splits)

text \<open>When a call of \<^verbatim>\<open>getText\<close> fails, \<^verbatim>\<open>compareText\<close> fails with its error.\<close>

lemma compareText_error:
  "compareText pg locator1 locator2 w = (Inl e, w2) \<longleftrightarrow>
     getText pg locator1 w = (Inl e, w2)
     \<or> (\<exists>text1 w1. getText pg locator1 w = (Inr text1, w1)
           \<and> getText pg locator2 w1 = (Inl e, w2))"
  by (auto simp: compareText_def split: prod.splits sum.splits)

lemma getText_sample:
  "getText playwright ''#title'' sample_page = (Inr (Some ''Hello''), sample_page)"
  "getText playwright ''#heading'' sample_page = (Inr (Some ''hello ''), sample_page)"
  "getText playwright ''#empty'' sample_page = (Inr (Some ''''), sample_page)"
  by (simp_all add: getText_def playwright_def browser_textContent_def resolve_one_def
      sample_page_def)

text \<open>
  On the sample page: a text equals itself, texts that differ in case and in a trailing
  blank are not equal, and the empty text is not equal to a text that is not empty.
\<close>

theorem compareText_iff_witness:
  "compareText playwright ''#title'' ''#title'' sample_page = (Inr True, sample_page)
   \<and> compareText playwright ''#title'' ''#heading'' sample_page = (Inr False, sample_page)
   \<and> compareText playwright ''#empty'' ''#title'' sample_page = (Inr False, sample_page)"
  using compareText_iff[of playwright "''#title''" "''#title''" sample_page True sample_page]
    compareText_iff[of playwright "''#title''" "''#heading''" sample_page False sample_page]
    compareText_iff[of playwright "''#empty''" "''#title''" sample_page False sample_page]
  by (simp add: getText_sample)

subsection \<open>\<^verbatim>\<open>hover\<close>, \<^verbatim>\<open>moveToElement\<close>\<close>

text \<open>
  C9: \<^verbatim>\<open>hover\<close> and \<^verbatim>\<open>moveToElement\<close> are the same function: on every page handle, every
  locator and every state of the browser both resolve the locator and perform the hover of
  the handle on it, with the same result and the same state after.
\<close>

theorem hover_eq_moveToElement: "hover = moveToElement"
  by (intro ext) (simp add: hover_def moveToElement_def)

lemma hover_sample:
  "hover playwright ''#title'' sample_page
     = (Inr (), sample_page\<lparr>pointer_on := Some \<lparr>el_visible = True, el_textContent = Some ''Hello''\<rparr>\<rparr>)"
  "moveToElement playwright ''li'' sample_page = (Inl InteractionError, sample_page)"
  by (simp_all add: hover_def moveToElement_def playwright_def browser_hover_def resolve_one_def
      sample_page_def)

subsection \<open>\<^verbatim>\<open>isElementAvailable\<close>\<close>

text \<open>
  C10: for a locator that matches no element of the current page,
  \<^verbatim>\<open>isElementAvailable\<close> on the page handle returns false and raises nothing; the page is
  left as it was.
\<close>

theorem isElementAvailable_not_found:
  assumes "matching b locator = []"
  shows "isElementAvailable playwright locator b = (Inr False, b)"
  using assms by (simp add: isElementAvailable_def playwright_def browser_isVisible_def)

theorem isElementAvailable_not_found_witness:
  "matching sample_page ''#missing'' = []
   \<and> isElementAvailable playwright ''#missing'' sample_page = (Inr False, sample_page)"
proof -
  have h: "matching sample_page ''#missing'' = []" by (simp add: sample_page_def)
  from isElementAvailable_not_found[OF h] h show ?thesis by simp
qed

lemma isElementAvailable_sample:
  "isElementAvailable playwright ''#title'' sample_page = (Inr True, sample_page)"
  "isElementAvailable playwright ''#empty'' sample_page = (Inr False, sample_page)"
  "isElementAvailable playwright ''li'' sample_page = (Inl InteractionError, sample_page)"
  by (simp_all add: isElementAvailable_def playwright_def browser_isVisible_def sample_page_def)

subsection \<open>\<^verbatim>\<open>convertToMoneyFormat\<close>\<close>

text \<open>
  \<^verbatim>\<open>parseFloat\<close> on some inputs: leading white space and a sign are read, the longest
  decimal literal is taken, and what follows it is ignored.
\<close>

lemma parseFloat_examples:
  "parseFloat ''  -12.5e1x'' = Finite True 125"
  "parseFloat ''.5'' = Finite False (1 / 2)"
  "parseFloat ''12.'' = Finite False 12"
  "parseFloat ''.'' = NaN"
  "parseFloat ''-Infinityx'' = Infinity True"
  "parseFloat ''1e'' = Finite False 1"
  "parseFloat ''-0'' = Finite True 0"
  "parseFloat '''' = NaN"
  "parseFloat ''0.1'' = Finite False (3602879701896397 / 36028797018963968)"
  "parseFloat [CHR 0xC2, CHR 0xA0, CHR ''7''] = Finite False 7"
  by code_simp+

lemma parseFloat_abc: "parseFloat ''abc'' = NaN"
  by code_simp

lemma convertToMoneyFormat_1000:
  "convertToMoneyFormat reference_platform ''1000'' = Inr ''$1,000.00''"
  by code_simp

text \<open>
  C4: on the reference platform \<^verbatim>\<open>convertToMoneyFormat("1000")\<close> returns \<^verbatim>\<open>"$1,000.00"\<close>; on
  every platform \<^verbatim>\<open>convertToMoneyFormat("abc")\<close> raises the error \<^verbatim>\<open>Invalid amount\<close>; and on
  every platform and every input the call raises that error when \<^verbatim>\<open>parseFloat\<close> of the
  input is \<open>NaN\<close>, and returns the platform's US-locale currency rendering of the parsed
  number otherwise.
\<close>

theorem convertToMoneyFormat_spec:
  "convertToMoneyFormat reference_platform ''1000'' = Inr ''$1,000.00''
   \<and> convertToMoneyFormat pf ''abc'' = Inl (Error ''Invalid amount'')
   \<and> convertToMoneyFormat pf amount =
       (if parseFloat amount = NaN then Inl (Error ''Invalid amount'')
        else Inr (format_currency_USD pf (parseFloat amount)))"
proof (intro conjI)
  show "convertToMoneyFormat reference_platform ''1000'' = Inr ''$1,000.00''"
    by (rule convertToMoneyFormat_1000)
  show "convertToMoneyFormat pf ''abc'' = Inl (Error ''Invalid amount'')"
    by (simp add: convertToMoneyFormat_def isNaN_def parseFloat_abc)
  show "convertToMoneyFormat pf amount =
       (if parseFloat amount = NaN then Inl (Error ''Invalid amount'')
        else Inr (format_currency_USD pf (parseFloat amount)))"
    by (simp add: convertToMoneyFormat_def isNaN_def Let_def)
qed

lemma parseFloat_12_5: "parseFloat ''12.5'' = Finite False (25 / 2)"
  by code_simp

lemma en_US_currency_12_5: "en_US_currency (Finite False (25 / 2)) = ''$12.50''"
  by code_simp

theorem convertToMoneyFormat_spec_witness:
  "convertToMoneyFormat reference_platform ''12.5'' = Inr ''$12.50''
   \<and> convertToMoneyFormat reference_platform ''abc'' = Inl (Error ''Invalid amount'')"
  using convertToMoneyFormat_spec[of reference_platform "''12.5''"]
  by (simp add: parseFloat_12_5 en_US_currency_12_5 reference_platform_def)

text \<open>
  What \<^verbatim>\<open>parseFloat\<close> reads does not change when characters are appended that cannot
  continue the literal.
\<close>

lemma takeWhile_append_inert:
  assumes "takeWhile P t = []"
  shows "takeWhile P (xs @ t) = takeWhile P xs" and "dropWhile P (xs @ t) = dropWhile P xs @ t"
  using assms by (induction xs) (auto simp: dropWhile_eq_self_iff takeWhile_eq_Nil_iff)

lemma dropWhile_inert:
  assumes "takeWhile P t = []"
  shows "dropWhile P t = t"
  using assms by (cases t) (auto split: if_splits)

lemma exponent_part_append:
  assumes a1: "takeWhile is_digit t = []"
    and a3: "exponent_part t = 0"
    and a4: "\<And>r. t = CHR ''+'' # r \<or> t = CHR ''-'' # r \<Longrightarrow> takeWhile is_digit r = []"
  shows "exponent_part (x @ t) = exponent_part x"
proof (cases x)
  case Nil
  thus ?thesis using a3 by (simp add: exponent_part_def)
next
  case (Cons c r)
  show ?thesis
  proof (cases "c = CHR ''e'' \<or> c = CHR ''E''")
    case False
    thus ?thesis using Cons by (simp add: exponent_part_def)
  next
    case True
    show ?thesis
    proof (cases r)
      case Nil
      have "exponent_part (c # t) = 0"
      proof (cases t)
        case Nil
        thus ?thesis using True by (simp add: exponent_part_def)
      next
        case (Cons d r')
        thus ?thesis using True a1 a4[of r'] by (auto simp: exponent_part_def Let_def)
      qed
      moreover have "exponent_part [c] = 0" using True by (simp add: exponent_part_def)
      ultimately show ?thesis using Cons Nil by simp
    next
      case (Cons d r')
      thus ?thesis using True \<open>x = c # r\<close> takeWhile_append_inert(1)[OF a1]
        by (simp add: exponent_part_def Let_def)
    qed
  qed
qed


lemma literal_start:
  assumes "StrUnsignedDecimalLiteral u \<noteq> NoLiteral"
  shows "\<exists>c r. u = c # r \<and> (is_digit c \<or> c = CHR ''.'' \<or> c = CHR ''I'')"
proof (cases u)
  case Nil
  thus ?thesis using assms by (simp add: StrUnsignedDecimalLiteral_def)
next
  case (Cons c r)
  show ?thesis
  proof (rule ccontr)
    assume "\<not> ?thesis"
    hence c: "\<not> is_digit c" "c \<noteq> CHR ''.''" "c \<noteq> CHR ''I''" using Cons by auto
    hence "StrUnsignedDecimalLiteral u = NoLiteral"
      using Cons by (simp add: StrUnsignedDecimalLiteral_def)
    thus False using assms by simp
  qed
qed

lemma StrUnsignedDecimalLiteral_append:
  assumes lit: "StrUnsignedDecimalLiteral u \<noteq> NoLiteral"
    and a1: "takeWhile is_digit t = []"
    and a2: "\<And>r. t = CHR ''.'' # r \<Longrightarrow> takeWhile is_digit r = [] \<and> exponent_part r = 0"
    and a3: "exponent_part t = 0"
    and a4: "\<And>r. t = CHR ''+'' # r \<or> t = CHR ''-'' # r \<Longrightarrow> takeWhile is_digit r = []"
  shows "StrUnsignedDecimalLiteral (u @ t) = StrUnsignedDecimalLiteral u"
proof (cases "prefix ''Infinity'' u")
  case True
  hence "prefix ''Infinity'' (u @ t)" by (rule prefix_prefix)
  thus ?thesis using True by (simp add: StrUnsignedDecimalLiteral_def)
next
  case False
  define ip where "ip = takeWhile is_digit u"
  define r1 where "r1 = dropWhile is_digit u"
  define fp where "fp = (case r1 of [] \<Rightarrow> [] | c # r \<Rightarrow> if c = CHR ''.'' then takeWhile is_digit r else [])"
  define r2 where "r2 = (case r1 of [] \<Rightarrow> [] | c # r \<Rightarrow> if c = CHR ''.'' then dropWhile is_digit r else r1)"
  define r1' where "r1' = dropWhile is_digit (u @ t)"
  define fp' where "fp' = (case r1' of [] \<Rightarrow> [] | c # r \<Rightarrow> if c = CHR ''.'' then takeWhile is_digit r else [])"
  define r2' where "r2' = (case r1' of [] \<Rightarrow> [] | c # r \<Rightarrow> if c = CHR ''.'' then dropWhile is_digit r else r1')"
  have u: "StrUnsignedDecimalLiteral u =
      (if ip = [] \<and> fp = [] then NoLiteral
       else DecimalLiteral (of_int (decimal_value (ip @ fp)) * 10 powi (exponent_part r2 - int (length fp))))"
    unfolding StrUnsignedDecimalLiteral_def Let_def ip_def r1_def fp_def r2_def
    using False by simp
  have ne: "\<not> (ip = [] \<and> fp = [])" using lit u by auto
  obtain c r where cr: "u = c # r" "is_digit c \<or> c = CHR ''.'' \<or> c = CHR ''I''"
    using literal_start[OF lit] by blast
  have "c \<noteq> CHR ''I''"
  proof
    assume "c = CHR ''I''"
    hence "ip = []" "r1 = u" using cr(1) by (simp_all add: ip_def r1_def is_digit_def)
    hence "fp = []" using cr(1) \<open>c = CHR ''I''\<close> by (simp add: fp_def)
    thus False using ne \<open>ip = []\<close> by simp
  qed
  hence nf: "\<not> prefix ''Infinity'' (u @ t)" using cr by auto
  have ip': "takeWhile is_digit (u @ t) = ip"
    unfolding ip_def using a1 by (rule takeWhile_append_inert(1))
  have r1t: "r1' = r1 @ t"
    unfolding r1'_def r1_def using a1 by (rule takeWhile_append_inert(2))
  have "StrUnsignedDecimalLiteral (u @ t) =
      (if takeWhile is_digit (u @ t) = [] \<and> fp' = [] then NoLiteral
       else DecimalLiteral (of_int (decimal_value (takeWhile is_digit (u @ t) @ fp'))
              * 10 powi (exponent_part r2' - int (length fp'))))"
    unfolding StrUnsignedDecimalLiteral_def Let_def r1'_def fp'_def r2'_def
    using nf by simp
  hence ut: "StrUnsignedDecimalLiteral (u @ t) =
      (if ip = [] \<and> fp' = [] then NoLiteral
       else DecimalLiteral (of_int (decimal_value (ip @ fp')) * 10 powi (exponent_part r2' - int (length fp'))))"
    by (simp only: ip')
  have "fp' = fp \<and> exponent_part r2' = exponent_part r2"
  proof (cases r1)
    case Nil
    hence f: "fp = []" "r2 = []" by (simp_all add: fp_def r2_def)
    have r1': "r1' = t" using Nil r1t by simp
    show ?thesis
    proof (cases t)
      case Nil
      thus ?thesis using r1' f by (simp add: fp'_def r2'_def)
    next
      case (Cons d t')
      show ?thesis
      proof (cases "d = CHR ''.''")
        case True
        hence "takeWhile is_digit t' = []" "exponent_part t' = 0" using a2[of t'] Cons by simp_all
        moreover from this have "dropWhile is_digit t' = t'" by (simp add: dropWhile_inert)
        ultimately show ?thesis using r1' f Cons True by (simp add: fp'_def r2'_def exponent_part_def)
      next
        case False
        thus ?thesis using r1' f Cons a3 by (simp add: fp'_def r2'_def exponent_part_def)
      qed
    qed
  next
    case (Cons d r'')
    show ?thesis
    proof (cases "d = CHR ''.''")
      case True
      have "fp' = takeWhile is_digit (r'' @ t)" "r2' = dropWhile is_digit (r'' @ t)"
        using Cons True r1t by (simp_all add: fp'_def r2'_def)
      moreover have "fp = takeWhile is_digit r''" "r2 = dropWhile is_digit r''"
        using Cons True by (simp_all add: fp_def r2_def)
      ultimately show ?thesis
        using takeWhile_append_inert[OF a1, of r''] exponent_part_append[OF a1 a3 a4] by simp
    next
      case False
      have "fp' = []" "r2' = r1 @ t" using Cons False r1t by (simp_all add: fp'_def r2'_def)
      moreover have "fp = []" "r2 = r1" using Cons False by (simp_all add: fp_def r2_def)
      ultimately show ?thesis using exponent_part_append[OF a1 a3 a4] by simp
    qed
  qed
  thus ?thesis using u ut by simp
qed

lemma white_space_lengths:
  "x \<in> set white_space_1 \<Longrightarrow> length x = 1"
  "x \<in> set white_space_2 \<Longrightarrow> length x = 2"
  "x \<in> set white_space_3 \<Longrightarrow> length x = 3"
  by (auto simp: white_space_1_def white_space_2_def white_space_3_def)

lemma white_space_heads:
  assumes "x \<in> set white_space_1 \<or> x \<in> set white_space_2 \<or> x \<in> set white_space_3"
  shows "hd x \<notin> set ''+-.0123456789I''"
  using assms by (auto simp: white_space_1_def white_space_2_def white_space_3_def)

lemma white_space_length_start:
  assumes "c \<in> set ''+-.0123456789I''"
  shows "white_space_length (c # xs) = 0"
proof -
  have no: "take k (c # xs) \<notin> set white_space_1 \<and> take k (c # xs) \<notin> set white_space_2
      \<and> take k (c # xs) \<notin> set white_space_3" if "0 < k" for k
  proof (rule ccontr)
    assume "\<not> ?thesis"
    hence "take k (c # xs) \<in> set white_space_1 \<or> take k (c # xs) \<in> set white_space_2
      \<or> take k (c # xs) \<in> set white_space_3" by blast
    hence "hd (take k (c # xs)) \<notin> set ''+-.0123456789I''" by (rule white_space_heads)
    moreover have "hd (take k (c # xs)) = c" using that by (cases k) simp_all
    ultimately show False using assms by metis
  qed
  have pos: "(0::nat) < 1" "(0::nat) < 2" "(0::nat) < 3" by simp_all
  have "take 1 (c # xs) \<notin> set white_space_1" using no[OF pos(1)] by blast
  moreover have "take 2 (c # xs) \<notin> set white_space_2" using no[OF pos(2)] by blast
  moreover have "take 3 (c # xs) \<notin> set white_space_3" using no[OF pos(3)] by blast
  ultimately show ?thesis unfolding white_space_length_def by (simp only: if_False)
qed

lemma take_append_short:
  assumes "length (take k p) = k" "j \<le> k"
  shows "take j (p @ t) = take j p"
  using assms by simp

lemma white_space_length_append:
  assumes "white_space_length p \<noteq> 0"
  shows "white_space_length (p @ t) = white_space_length p \<and> white_space_length p \<le> length p"
proof -
  consider (one) "take 1 p \<in> set white_space_1"
    | (two) "take 1 p \<notin> set white_space_1" "take 2 p \<in> set white_space_2"
    | (three) "take 1 p \<notin> set white_space_1" "take 2 p \<notin> set white_space_2"
        "take 3 p \<in> set white_space_3"
    using assms by (auto simp: white_space_length_def split: if_splits)
  thus ?thesis
  proof cases
    case one
    hence l: "length (take 1 p) = 1" by (rule white_space_lengths)
    hence "take 1 (p @ t) = take 1 p" by (intro take_append_short[of 1]) simp_all
    moreover have "1 \<le> length p" using l by simp
    ultimately show ?thesis using one by (simp add: white_space_length_def)
  next
    case two
    hence l: "length (take 2 p) = 2" by (intro white_space_lengths)
    hence "take 1 (p @ t) = take 1 p" "take 2 (p @ t) = take 2 p"
      by (intro take_append_short[of 2]; simp)+
    moreover have "2 \<le> length p" using l by simp
    ultimately show ?thesis using two by (simp add: white_space_length_def)
  next
    case three
    hence l: "length (take 3 p) = 3" by (intro white_space_lengths)
    hence "take 1 (p @ t) = take 1 p" "take 2 (p @ t) = take 2 p" "take 3 (p @ t) = take 3 p"
      by (intro take_append_short[of 3]; simp)+
    moreover have "3 \<le> length p" using l by simp
    ultimately show ?thesis using three by (simp add: white_space_length_def)
  qed
qed

lemma trim_start_append:
  assumes "trim_start p = c # r" "c \<in> set ''+-.0123456789I''"
  shows "trim_start (p @ t) = c # r @ t"
  using assms
proof (induction p rule: trim_start.induct)
  case (1 s)
  show ?case
  proof (cases "white_space_length s = 0")
    case True
    hence "s = c # r" using 1(2) by (subst (asm) trim_start.simps) simp
    moreover have "white_space_length (c # r @ t) = 0" using 1(3) by (rule white_space_length_start)
    ultimately show ?thesis by (subst trim_start.simps) simp
  next
    case False
    have w: "white_space_length (s @ t) = white_space_length s" "white_space_length s \<le> length s"
      using white_space_length_append[OF False] by simp_all
    have "trim_start (drop (white_space_length s) s) = c # r"
      using 1(2) False by (subst (asm) trim_start.simps) simp
    hence "trim_start (drop (white_space_length s) s @ t) = c # r @ t"
      using 1(1)[OF False] 1(3) by simp
    thus ?thesis using False w by (subst trim_start.simps) simp
  qed
qed


lemma is_digit_start: "is_digit c \<Longrightarrow> c \<in> set ''+-.0123456789I''"
  by (auto simp: is_digit_def)

lemma StrUnsignedDecimalLiteral_Nil: "StrUnsignedDecimalLiteral [] = NoLiteral"
  by (simp add: StrUnsignedDecimalLiteral_def)

lemma parseFloat_append:
  assumes p: "parseFloat p \<noteq> NaN"
    and a1: "takeWhile is_digit t = []"
    and a2: "\<And>r. t = CHR ''.'' # r \<Longrightarrow> takeWhile is_digit r = [] \<and> exponent_part r = 0"
    and a3: "exponent_part t = 0"
    and a4: "\<And>r. t = CHR ''+'' # r \<or> t = CHR ''-'' # r \<Longrightarrow> takeWhile is_digit r = []"
  shows "parseFloat (p @ t) = parseFloat p"
proof (cases "trim_start p")
  case Nil
  hence "parseFloat p = NaN" by (simp add: parseFloat_def StrUnsignedDecimalLiteral_Nil)
  thus ?thesis using p by simp
next
  case (Cons c r)
  consider (minus) "c = CHR ''-''" | (plus) "c = CHR ''+''" | (none) "c \<noteq> CHR ''-''" "c \<noteq> CHR ''+''"
    by blast
  thus ?thesis
  proof cases
    case minus
    have lit: "StrUnsignedDecimalLiteral r \<noteq> NoLiteral"
      using p Cons minus by (auto simp: parseFloat_def)
    have "trim_start (p @ t) = c # r @ t" using Cons minus by (intro trim_start_append) simp_all
    moreover have "StrUnsignedDecimalLiteral (r @ t) = StrUnsignedDecimalLiteral r"
      using lit a1 a2 a3 a4 by (rule StrUnsignedDecimalLiteral_append)
    ultimately show ?thesis using Cons minus by (simp add: parseFloat_def)
  next
    case plus
    have lit: "StrUnsignedDecimalLiteral r \<noteq> NoLiteral"
      using p Cons plus by (auto simp: parseFloat_def)
    have "trim_start (p @ t) = c # r @ t" using Cons plus by (intro trim_start_append) simp_all
    moreover have "StrUnsignedDecimalLiteral (r @ t) = StrUnsignedDecimalLiteral r"
      using lit a1 a2 a3 a4 by (rule StrUnsignedDecimalLiteral_append)
    ultimately show ?thesis using Cons plus by (simp add: parseFloat_def)
  next
    case none
    have lit: "StrUnsignedDecimalLiteral (c # r) \<noteq> NoLiteral"
      using p Cons none by (auto simp: parseFloat_def)
    obtain c' r' where "c # r = c' # r'" "is_digit c' \<or> c' = CHR ''.'' \<or> c' = CHR ''I''"
      using literal_start[OF lit] by blast
    hence "is_digit c \<or> c = CHR ''.'' \<or> c = CHR ''I''" by simp
    hence "c \<in> set ''+-.0123456789I''"
    proof (elim disjE)
      assume "is_digit c"
      thus ?thesis by (rule is_digit_start)
    next
      assume "c = CHR ''.''"
      thus ?thesis by simp
    next
      assume "c = CHR ''I''"
      thus ?thesis by simp
    qed
    hence "trim_start (p @ t) = c # r @ t" using Cons by (intro trim_start_append)
    moreover have "StrUnsignedDecimalLiteral ((c # r) @ t) = StrUnsignedDecimalLiteral (c # r)"
      using lit a1 a2 a3 a4 by (rule StrUnsignedDecimalLiteral_append)
    ultimately show ?thesis using Cons none by (simp add: parseFloat_def)
  qed
qed

lemma takeWhile_no_digit:
  assumes "list_all (\<lambda>c. \<not> is_digit c) x"
  shows "takeWhile is_digit x = []"
  using assms by (cases x) simp_all

lemma exponent_part_no_digit:
  assumes "list_all (\<lambda>c. \<not> is_digit c) x"
  shows "exponent_part x = 0"
proof (cases x)
  case Nil
  thus ?thesis by (simp add: exponent_part_def)
next
  case (Cons c r)
  have r: "list_all (\<lambda>c. \<not> is_digit c) r" using assms Cons by simp
  show ?thesis
  proof (cases r)
    case Nil
    thus ?thesis using Cons by (simp add: exponent_part_def)
  next
    case (Cons d r')
    hence "list_all (\<lambda>c. \<not> is_digit c) r'" using r by simp
    hence "takeWhile is_digit r' = []" by (rule takeWhile_no_digit)
    moreover have "takeWhile is_digit r = []" using r by (rule takeWhile_no_digit)
    ultimately have "takeWhile is_digit r = []" "takeWhile is_digit r' = []" by simp_all
    thus ?thesis using Cons \<open>x = c # r\<close> by (simp add: exponent_part_def Let_def)
  qed
qed

text \<open>Trailing characters none of which is a digit do not change what is parsed.\<close>

lemma parseFloat_append_no_digit:
  assumes "parseFloat p \<noteq> NaN" "list_all (\<lambda>c. \<not> is_digit c) t"
  shows "parseFloat (p @ t) = parseFloat p"
proof (rule parseFloat_append[OF assms(1)])
  show "takeWhile is_digit t = []" using assms(2) by (rule takeWhile_no_digit)
  show "exponent_part t = 0" using assms(2) by (rule exponent_part_no_digit)
  show "takeWhile is_digit r = [] \<and> exponent_part r = 0" if "t = CHR ''.'' # r" for r
  proof -
    have "list_all (\<lambda>c. \<not> is_digit c) r" using assms(2) that by simp
    thus ?thesis using takeWhile_no_digit exponent_part_no_digit by blast
  qed
  show "takeWhile is_digit r = []" if "t = CHR ''+'' # r \<or> t = CHR ''-'' # r" for r
  proof -
    have "list_all (\<lambda>c. \<not> is_digit c) r" using assms(2) that by auto
    thus ?thesis by (rule takeWhile_no_digit)
  qed
qed

text \<open>
  Nor do trailing characters the first of which is no digit, point, exponent letter or
  sign, whatever follows it.
\<close>

lemma parseFloat_append_stop:
  assumes "parseFloat p \<noteq> NaN" "c \<notin> set ''0123456789.eE+-''"
  shows "parseFloat (p @ c # t) = parseFloat p"
proof (rule parseFloat_append[OF assms(1)])
  show "takeWhile is_digit (c # t) = []" using assms(2) by (simp add: is_digit_def)
  show "exponent_part (c # t) = 0" using assms(2) by (simp add: exponent_part_def)
  show "takeWhile is_digit r = [] \<and> exponent_part r = 0" if "c # t = CHR ''.'' # r" for r
    using assms(2) that by simp
  show "takeWhile is_digit r = []" if "c # t = CHR ''+'' # r \<or> c # t = CHR ''-'' # r" for r
    using assms(2) that by auto
qed

lemma parseFloat_12: "parseFloat ''12'' = Finite False 12"
  by code_simp

lemma en_US_currency_12: "en_US_currency (Finite False 12) = ''$12.00''"
  by code_simp

text \<open>
  C5: \<^verbatim>\<open>convertToMoneyFormat\<close> raises if and only if \<^verbatim>\<open>parseFloat\<close> of its argument is
  \<open>NaN\<close>; and for every string \<open>p\<close> that \<^verbatim>\<open>parseFloat\<close> parses and every trailing string
  \<open>t\<close> without a digit (as in \<^verbatim>\<open>"12abc"\<close>), the call on \<open>p @ t\<close> succeeds with the currency
  rendering of what \<open>p\<close> parses to.
\<close>

theorem convertToMoneyFormat_raises_iff_NaN:
  "((\<exists>e. convertToMoneyFormat pf amount = Inl e) \<longleftrightarrow> parseFloat amount = NaN)
   \<and> (parseFloat p \<noteq> NaN \<and> list_all (\<lambda>c. \<not> is_digit c) t \<longrightarrow>
        convertToMoneyFormat pf (p @ t) = Inr (format_currency_USD pf (parseFloat p)))"
proof (intro conjI impI)
  show "(\<exists>e. convertToMoneyFormat pf amount = Inl e) \<longleftrightarrow> parseFloat amount = NaN"
    by (simp add: convertToMoneyFormat_def isNaN_def Let_def)
next
  assume a: "parseFloat p \<noteq> NaN \<and> list_all (\<lambda>c. \<not> is_digit c) t"
  hence "parseFloat (p @ t) = parseFloat p" by (intro parseFloat_append_no_digit) simp_all
  thus "convertToMoneyFormat pf (p @ t) = Inr (format_currency_USD pf (parseFloat p))"
    using a by (simp add: convertToMoneyFormat_def isNaN_def Let_def)
qed

theorem convertToMoneyFormat_raises_iff_NaN_witness:
  "parseFloat ''12'' \<noteq> NaN \<and> list_all (\<lambda>c. \<not> is_digit c) ''abc''
   \<and> convertToMoneyFormat reference_platform ''12abc'' = Inr ''$12.00''
   \<and> parseFloat ''abc'' = NaN
   \<and> (\<exists>e. convertToMoneyFormat reference_platform ''abc'' = Inl e)"
proof -
  have h: "parseFloat ''12'' \<noteq> NaN \<and> list_all (\<lambda>c. \<not> is_digit c) ''abc''"
    by (simp add: parseFloat_12 is_digit_def)
  have f: "format_currency_USD reference_platform (parseFloat ''12'') = ''$12.00''"
    by (simp add: reference_platform_def parseFloat_12 en_US_currency_12)
  from convertToMoneyFormat_raises_iff_NaN[of reference_platform "''abc''" "''12''" "''abc''"]
  have "(\<exists>e. convertToMoneyFormat reference_platform ''abc'' = Inl e)"
    and "convertToMoneyFormat reference_platform (''12'' @ ''abc'') = Inr ''$12.00''"
    using h f parseFloat_abc by simp_all
  thus ?thesis using h parseFloat_abc by simp
qed

subsection \<open>\<^verbatim>\<open>changeDateFormat\<close>\<close>

lemma match_here_start:
  assumes "list_all is_digit [m1, m2, d1, d2, y1, y2, y3, y4]"
  shows "match_here ([m1, m2] @ ''/'' @ [d1, d2] @ ''/'' @ [y1, y2, y3, y4] @ rest)
         = Some ([m1, m2], [d1, d2], [y1, y2, y3, y4], rest)"
  using assms by simp

lemma replace_swap_start:
  assumes "list_all is_digit [m1, m2, d1, d2, y1, y2, y3, y4]"
  shows "replace_swap ([m1, m2] @ ''/'' @ [d1, d2] @ ''/'' @ [y1, y2, y3, y4] @ rest)
         = [d1, d2] @ ''/'' @ [m1, m2] @ ''/'' @ [y1, y2, y3, y4] @ rest"
  using assms by simp

lemma replace_swap_short_year: "replace_swap ''01/02/999'' = ''01/02/999''"
  by (simp add: is_digit_def)

lemma replace_swap_leftmost:
  "replace_swap ''on 03/15/2024 and 01/02/2000'' = ''on 15/03/2024 and 01/02/2000''"
  by (simp add: is_digit_def)

text \<open>
  C7, as the code has it: whatever \<^verbatim>\<open>inputFormat\<close> and \<^verbatim>\<open>outputFormat\<close> are, they have no
  effect on the result; when the platform's date parser rejects \<^verbatim>\<open>inputDate\<close> the call
  raises a \<^verbatim>\<open>RangeError\<close>; and when the parser accepts it and the \<^verbatim>\<open>en-US\<close> rendering of the
  date is two digits, a slash, two digits, a slash and at least four digits (MM/DD/YYYY),
  the call returns that rendering with the first two components swapped (DD/MM/YYYY).
\<close>

theorem changeDateFormat_amended:
  "changeDateFormat pf inputDate inputFormat outputFormat
     = changeDateFormat pf inputDate inputFormat' outputFormat'
   \<and> (Date_parse pf inputDate = None \<longrightarrow>
        changeDateFormat pf inputDate inputFormat outputFormat = Inl RangeError)
   \<and> (Date_parse pf inputDate = Some t
        \<and> format_numeric_2digit pf t = [m1, m2] @ ''/'' @ [d1, d2] @ ''/'' @ [y1, y2, y3, y4] @ rest
        \<and> list_all is_digit [m1, m2, d1, d2, y1, y2, y3, y4] \<longrightarrow>
        changeDateFormat pf inputDate inputFormat outputFormat
          = Inr ([d1, d2] @ ''/'' @ [m1, m2] @ ''/'' @ [y1, y2, y3, y4] @ rest))"
proof (intro conjI impI)
  show "changeDateFormat pf inputDate inputFormat outputFormat
     = changeDateFormat pf inputDate inputFormat' outputFormat'"
    by (simp add: changeDateFormat_def)
next
  assume "Date_parse pf inputDate = None"
  thus "changeDateFormat pf inputDate inputFormat outputFormat = Inl RangeError"
    by (simp add: changeDateFormat_def)
next
  assume a: "Date_parse pf inputDate = Some t
        \<and> format_numeric_2digit pf t = [m1, m2] @ ''/'' @ [d1, d2] @ ''/'' @ [y1, y2, y3, y4] @ rest
        \<and> list_all is_digit [m1, m2, d1, d2, y1, y2, y3, y4]"
  hence "replace_swap (format_numeric_2digit pf t)
      = [d1, d2] @ ''/'' @ [m1, m2] @ ''/'' @ [y1, y2, y3, y4] @ rest"
    using replace_swap_start[of m1 m2 d1 d2 y1 y2 y3 y4 rest] by simp
  thus "changeDateFormat pf inputDate inputFormat outputFormat
          = Inr ([d1, d2] @ ''/'' @ [m1, m2] @ ''/'' @ [y1, y2, y3, y4] @ rest)"
    using a by (simp add: changeDateFormat_def Let_def)
qed

lemma Date_parse_example: "Date_parse reference_platform ''2024-03-15'' = Some 1710460800000"
  by code_simp

lemma format_numeric_example: "format_numeric_2digit reference_platform 1710460800000 = ''03/15/2024''"
  by code_simp

lemma Date_parse_invalid: "Date_parse reference_platform ''not a date'' = None"
  by code_simp

theorem changeDateFormat_amended_witness:
  "Date_parse reference_platform ''2024-03-15'' = Some 1710460800000
   \<and> format_numeric_2digit reference_platform 1710460800000 = ''03/15/2024''
   \<and> changeDateFormat reference_platform ''2024-03-15'' ''YYYY-MM-DD'' ''MM/DD/YYYY'' = Inr ''15/03/2024''
   \<and> Date_parse reference_platform ''not a date'' = None
   \<and> changeDateFormat reference_platform ''not a date'' ''YYYY-MM-DD'' ''MM/DD/YYYY'' = Inl RangeError"
proof -
  have d: "list_all is_digit ''03152024''" by (simp add: is_digit_def)
  from changeDateFormat_amended[of reference_platform "''2024-03-15''" "''YYYY-MM-DD''" "''MM/DD/YYYY''"
      "''YYYY-MM-DD''" "''MM/DD/YYYY''" 1710460800000
      "CHR ''0''" "CHR ''3''" "CHR ''1''" "CHR ''5''" "CHR ''2''" "CHR ''0''" "CHR ''2''" "CHR ''4''" "[]"]
  have 1: "changeDateFormat reference_platform ''2024-03-15'' ''YYYY-MM-DD'' ''MM/DD/YYYY'' = Inr ''15/03/2024''"
    using Date_parse_example format_numeric_example d by simp
  from changeDateFormat_amended[of reference_platform "''not a date''" "''YYYY-MM-DD''" "''MM/DD/YYYY''"]
  have 2: "changeDateFormat reference_platform ''not a date'' ''YYYY-MM-DD'' ''MM/DD/YYYY'' = Inl RangeError"
    using Date_parse_invalid by simp
  from 1 2 Date_parse_example format_numeric_example Date_parse_invalid show ?thesis by simp
qed

text \<open>
  The claim C7 as the specification states it, for every \<^verbatim>\<open>inputDate\<close> string, fails on a
  string that is no date: the call returns no rendering, it raises.
\<close>

theorem changeDateFormat_counterexample:
  "changeDateFormat reference_platform ''not a date'' ''YYYY-MM-DD'' ''MM/DD/YYYY'' = Inl RangeError"
  by (simp add: changeDateFormat_def Date_parse_invalid)

text \<open>
  The regular expression asks for four digits of the year: a rendering with a shorter
  year is returned as it is, month first.
\<close>

lemma changeDateFormat_short_year:
  "changeDateFormat reference_platform ''0999-01-02'' ''YYYY-MM-DD'' ''DD/MM/YYYY'' = Inr ''01/02/999''"
  by code_simp

end
